theory Spec2Isabelle
  imports Main
begin

section \<open>ComStock processor: data model\<close>

text \<open>
  The program downloads a metadata table and per-building time-series files over HTTP,
  caches them on disk and filters the metadata by state, county and building type.
  Everything it touches outside its own variables is made explicit here: the file system,
  the remote server, the list of HTTP requests issued, the lines printed, the number of
  tasks handed to the thread pool, and the CSV reader.

  A table cell is an integer or a string; \<open>str_cell\<close> is Python's \<open>str\<close> on it.
\<close>

datatype cell = IntCell int | StrCell string

text \<open>
  A path is the list of its parts, as \<open>pathlib\<close> keeps it; an absolute path has its root
  (\<open>/\<close>, or \<open>//\<close>) as first part. The file system is keyed by the parts as written:
  \<open>..\<close> and links are not resolved.
\<close>

type_synonym path = "string list"
type_synonym url = string
type_synonym series = "(string \<times> cell) list"

text \<open>
  A data frame: the name of its index (if any), its column labels, and its records, each an
  index label with the cells of the row.
\<close>

record frame =
  index_name :: "string option"
  columns :: "string list"
  recs :: "(cell \<times> cell list) list"

text \<open>
  The content of a file: a parquet table (typed, with its index), a CSV table (a header line
  and rows, every field a piece of text: a CSV file holds no types and, written with
  \<open>index=False\<close>, no index), or bytes that are neither.
\<close>

datatype content = ParquetData frame | CsvData "string list" "string list list" | OtherData string

datatype node = Dir | File content

datatype http = Response nat content | NoResponse

datatype error =
    FileNotFoundError | FileExistsError | NotADirectoryError | IsADirectoryError | OSError
  | KeyError string | ValueError | ArrowInvalid | ParserError | RequestException

text \<open>
  What \<open>pd.read_csv\<close> makes of the content of a file (its handling of the header, the
  column types it infers from the text of the fields, the fields it takes for missing values,
  the error it raises on a file that is no CSV table) is a component of the world,
  \<open>csv_reader\<close>: the theorems below hold for whatever the reader does; only the example
  worlds fix one.
\<close>

record world =
  fs :: "path \<Rightarrow> node option"
  remote :: "url \<Rightarrow> http"
  cpu_count :: int
  requests :: "url list"
  out :: "string list"
  submitted :: nat
  csv_reader :: "content \<Rightarrow> error + frame"

record processor =
  state :: string
  county_name :: string
  building_type :: string
  upgrade :: string
  base_dir :: path
  base_url :: string
  metadata_url :: string
  time_series_url :: string

section \<open>Python and library primitives\<close>

definition digit :: "nat \<Rightarrow> char" where
  "digit n = ''0123456789'' ! (n mod 10)"

function str_nat :: "nat \<Rightarrow> string" where
  "str_nat n = (if n < 10 then [digit n] else str_nat (n div 10) @ [digit n])"
  by pat_completeness auto
termination
  by (relation "measure id") auto

declare str_nat.simps [simp del]

definition str_int :: "int \<Rightarrow> string" where
  "str_int i = (if i < 0 then CHR ''-'' # str_nat (nat (- i)) else str_nat (nat i))"

fun str_cell :: "cell \<Rightarrow> string" where
  "str_cell (IntCell i) = str_int i"
| "str_cell (StrCell s) = s"

text \<open>
  The \<open>/\<close> operator of \<open>pathlib\<close> (POSIX flavour) with a string on the right: the string
  is split at its slashes, empty pieces and \<open>.\<close> are dropped, \<open>..\<close> is kept, and a
  string that starts with a slash is a path of its own, which replaces the left operand.
  Exactly two leading slashes make the root \<open>//\<close>.
\<close>

fun split_slash :: "string \<Rightarrow> string list" where
  "split_slash [] = [] # []"
| "split_slash (c # cs) =
     (if c = CHR ''/'' then [] # split_slash cs
      else (case split_slash cs of [] \<Rightarrow> [c] # [] | x # xs \<Rightarrow> (c # x) # xs))"

definition anchor :: "string \<Rightarrow> string" where
  "anchor s =
     (if take 2 s = ''//'' \<and> take 3 s \<noteq> ''///'' then ''//''
      else if take 1 s = ''/'' then ''/'' else [])"

definition name_parts :: "string \<Rightarrow> string list" where
  "name_parts s = filter (\<lambda>x. x \<noteq> [] \<and> x \<noteq> ''.'') (split_slash s)"

definition path_join :: "path \<Rightarrow> string \<Rightarrow> path" where
  "path_join p s = (if anchor s = [] then p @ name_parts s else anchor s # name_parts s)"

text \<open>\<open>str\<close> of a path, as the f-string of the cache notice renders it.\<close>

fun slashed :: "string list \<Rightarrow> string" where
  "slashed [] = []"
| "slashed [c] = c"
| "slashed (c # cs) = c @ ''/'' @ slashed cs"

definition join_path :: "path \<Rightarrow> string" where
  "join_path p =
     (case p of
        [] \<Rightarrow> ''.''
      | c # cs \<Rightarrow> if c = ''/'' \<or> c = ''//'' then c @ slashed cs else slashed p)"

text \<open>\<open>print\<close> and \<open>tqdm.write\<close>: one more line of output.\<close>

definition emit :: "string \<Rightarrow> world \<Rightarrow> world" where
  "emit s w = w\<lparr>out := out w @ [s]\<rparr>"

text \<open>\<open>Path.exists\<close>, true of files and of directories.\<close>

definition path_exists :: "world \<Rightarrow> path \<Rightarrow> bool" where
  "path_exists w p \<longleftrightarrow> fs w p \<noteq> None"

definition parent :: "path \<Rightarrow> path" where
  "parent p = butlast p"

text \<open>
  \<open>Path.mkdir()\<close> with its defaults \<open>parents=False, exist_ok=False\<close>: one level only.
\<close>

definition mkdir :: "path \<Rightarrow> world \<Rightarrow> (error + unit) \<times> world" where
  "mkdir p w =
     (if fs w p \<noteq> None then (Inl FileExistsError, w)
      else case fs w (parent p) of
             None \<Rightarrow> (Inl FileNotFoundError, w)
           | Some (File _) \<Rightarrow> (Inl NotADirectoryError, w)
           | Some Dir \<Rightarrow> (Inr (), w\<lparr>fs := (fs w)(p \<mapsto> Dir)\<rparr>))"

text \<open>\<open>open(save_path, "wb")\<close> followed by \<open>write\<close>: creates or replaces the file.\<close>

definition write_file :: "path \<Rightarrow> content \<Rightarrow> world \<Rightarrow> (error + unit) \<times> world" where
  "write_file p c w =
     (case fs w p of
        Some Dir \<Rightarrow> (Inl IsADirectoryError, w)
      | _ \<Rightarrow> (case fs w (parent p) of
                None \<Rightarrow> (Inl FileNotFoundError, w)
              | Some (File _) \<Rightarrow> (Inl NotADirectoryError, w)
              | Some Dir \<Rightarrow> (Inr (), w\<lparr>fs := (fs w)(p \<mapsto> File c)\<rparr>)))"

text \<open>
  The row as the parquet file stores it: the index is one more stored column when it has a
  name, so a filter may refer to it.
\<close>

definition stored_columns :: "frame \<Rightarrow> string list" where
  "stored_columns f =
     (case index_name f of None \<Rightarrow> columns f | Some n \<Rightarrow> n # columns f)"

definition stored_row :: "frame \<Rightarrow> cell \<times> cell list \<Rightarrow> series" where
  "stored_row f r =
     (case index_name f of
        None \<Rightarrow> zip (columns f) (snd r)
      | Some n \<Rightarrow> (n, fst r) # zip (columns f) (snd r))"

text \<open>
  An equality filter \<open>(column, "==", value)\<close> is the pair of its column and value. A row
  passes a filter list when every filter holds of it (AND).
\<close>

definition satisfies :: "series \<Rightarrow> string \<times> string \<Rightarrow> bool" where
  "satisfies r flt \<longleftrightarrow> map_of r (fst flt) = Some (StrCell (snd flt))"

definition apply_filters :: "(string \<times> string) list \<Rightarrow> frame \<Rightarrow> error + frame" where
  "apply_filters flts f =
     (if list_all (\<lambda>flt. fst flt \<in> set (stored_columns f)) flts
      then Inr (f\<lparr>recs := filter (\<lambda>r. list_all (satisfies (stored_row f r)) flts) (recs f)\<rparr>)
      else Inl ArrowInvalid)"

text \<open>\<open>pd.read_parquet(path, filters=...)\<close>; \<open>filters=None\<close> reads the whole table.\<close>

definition read_parquet ::
  "path \<Rightarrow> (string \<times> string) list option \<Rightarrow> world \<Rightarrow> error + frame" where
  "read_parquet p filters w =
     (case fs w p of
        None \<Rightarrow> Inl FileNotFoundError
      | Some Dir \<Rightarrow> Inl IsADirectoryError
      | Some (File (ParquetData f)) \<Rightarrow>
          (case filters of None \<Rightarrow> Inr f | Some flts \<Rightarrow> apply_filters flts f)
      | Some (File _) \<Rightarrow> Inl ArrowInvalid)"

text \<open>
  \<open>reset_index(drop=False)\<close>: the index becomes the first column, under its name, or
  \<open>index\<close> (\<open>level_0\<close> when \<open>index\<close> is taken) when it has none; inserting a label
  that is already a column is refused. The rows are renumbered from 0.
\<close>

definition range_index :: "cell list list \<Rightarrow> (cell \<times> cell list) list" where
  "range_index rows = map (\<lambda>(k, cs). (IntCell (int k), cs)) (enumerate 0 rows)"

definition lifted_name :: "frame \<Rightarrow> string" where
  "lifted_name f =
     (case index_name f of
        Some n \<Rightarrow> n
      | None \<Rightarrow> if ''index'' \<in> set (columns f) then ''level_0'' else ''index'')"

definition reset_index :: "frame \<Rightarrow> error + frame" where
  "reset_index f =
     (let nm = lifted_name f
      in if nm \<in> set (columns f) then Inl ValueError
         else Inr \<lparr>index_name = None, columns = nm # columns f,
                   recs = range_index (map (\<lambda>r. fst r # snd r) (recs f))\<rparr>)"

text \<open>
  \<open>to_csv(path, index=False)\<close>: pandas refuses a path whose parent is not a directory
  with \<open>OSError\<close>; otherwise the file is opened for writing and receives the column labels
  and, for every row, the text of its cells (the index is left out).

  \<open>pd.read_csv(path)\<close>: the content of the file goes through the reader of the world.
\<close>

definition to_csv :: "frame \<Rightarrow> path \<Rightarrow> world \<Rightarrow> (error + unit) \<times> world" where
  "to_csv f p w =
     (if fs w (parent p) \<noteq> Some Dir then (Inl OSError, w)
      else write_file p (CsvData (columns f) (map (\<lambda>r. map str_cell (snd r)) (recs f))) w)"

definition read_csv :: "path \<Rightarrow> world \<Rightarrow> error + frame" where
  "read_csv p w =
     (case fs w p of
        None \<Rightarrow> Inl FileNotFoundError
      | Some Dir \<Rightarrow> Inl IsADirectoryError
      | Some (File c) \<Rightarrow> csv_reader w c)"

text \<open>\<open>iterrows\<close>: each row as a series labelled by the columns; \<open>row[key]\<close>.\<close>

definition iterrows :: "frame \<Rightarrow> series list" where
  "iterrows f = map (\<lambda>r. zip (columns f) (snd r)) (recs f)"

definition getitem :: "series \<Rightarrow> string \<Rightarrow> error + cell" where
  "getitem row k = (case map_of row k of None \<Rightarrow> Inl (KeyError k) | Some c \<Rightarrow> Inr c)"

section \<open>The processor\<close>

text \<open>The attributes the constructor assigns.\<close>

definition new_processor :: "string \<Rightarrow> string \<Rightarrow> string \<Rightarrow> string \<Rightarrow> path \<Rightarrow> processor" where
  "new_processor st cn bt up bd =
     (let burl = ''https://oedi-data-lake.s3.amazonaws.com/nrel-pds-building-stock/end-use-load-profiles-for-us-building-stock/2024/comstock_amy2018_release_1/''
      in \<lparr>state = st, county_name = cn, building_type = bt, upgrade = up,
          base_dir = bd, base_url = burl, metadata_url = burl @ ''metadata'',
          time_series_url = burl @ ''timeseries_individual_buildings''\<rparr>)"

definition ComStockProcessor_init ::
  "string \<Rightarrow> string \<Rightarrow> string \<Rightarrow> string \<Rightarrow> path \<Rightarrow> world \<Rightarrow> (error + processor) \<times> world" where
  "ComStockProcessor_init st cn bt up bd w =
     (if \<not> path_exists w bd
      then (case mkdir bd w of
              (Inl e, w') \<Rightarrow> (Inl e, w')
            | (Inr _, w') \<Rightarrow> (Inr (new_processor st cn bt up bd), w'))
      else (Inr (new_processor st cn bt up bd), w))"

definition download_file :: "url \<Rightarrow> path \<Rightarrow> world \<Rightarrow> (error + unit) \<times> world" where
  "download_file u save_path w =
     (let w1 = w\<lparr>requests := requests w @ [u]\<rparr>
      in case remote w u of
           NoResponse \<Rightarrow> (Inl RequestException, w1)
         | Response status_code body \<Rightarrow>
             if status_code = 200 then write_file save_path body w1
             else (Inr (), emit (''Failed to download file: '' @ u) w1))"

definition raw_metadata :: "path \<Rightarrow> path" where
  "raw_metadata save_dir = path_join save_dir ''comstock_metadata.parquet''"

definition output_csv :: "processor \<Rightarrow> path \<Rightarrow> path" where
  "output_csv self save_dir =
     path_join save_dir
       (state self @ ''-'' @ county_name self @ ''-'' @ building_type self @ ''-''
        @ upgrade self @ ''-selected_metadata.csv'')"

definition county_warning :: string where
  "county_warning = ''County is specified, but State is not. Ignoring County...''"

text \<open>The filter list of \<open>process_metadata\<close>, and the warning printed while it is built.\<close>

definition build_filters :: "processor \<Rightarrow> (string \<times> string) list" where
  "build_filters self =
     (if state self \<noteq> ''All'' then [(''in.state'', state self)] else [])
     @ (if county_name self \<noteq> ''All'' \<and> state self \<noteq> ''All''
        then [(''in.county_name'', state self @ '', '' @ county_name self)] else [])
     @ (if building_type self \<noteq> ''All''
        then [(''in.comstock_building_type'', building_type self)] else [])"

definition filter_notices :: "processor \<Rightarrow> world \<Rightarrow> world" where
  "filter_notices self w =
     (if county_name self \<noteq> ''All'' \<and> state self = ''All'' then emit county_warning w else w)"

definition fresh_filter :: "processor \<Rightarrow> path \<Rightarrow> world \<Rightarrow> (error + frame) \<times> world" where
  "fresh_filter self save_dir w =
     (let filters = build_filters self;
          w1 = filter_notices self w
      in case read_parquet (raw_metadata save_dir)
                (if length filters = 0 then None else Some filters) w1 of
           Inl e \<Rightarrow> (Inl e, w1)
         | Inr df \<Rightarrow>
             (case reset_index df of
                Inl e \<Rightarrow> (Inl e, w1)
              | Inr meta_df \<Rightarrow>
                  (case to_csv meta_df (output_csv self save_dir) w1 of
                     (Inl e, w2) \<Rightarrow> (Inl e, w2)
                   | (Inr _, w2) \<Rightarrow> (Inr meta_df, w2))))"

definition ensure_raw :: "processor \<Rightarrow> path \<Rightarrow> world \<Rightarrow> (error + unit) \<times> world" where
  "ensure_raw self save_dir w =
     (if path_exists w (raw_metadata save_dir)
      then (Inr (), emit ''Metadata parquet already exists. Skipping download.'' w)
      else (let download = metadata_url self @ ''/baseline.parquet''
            in download_file download (raw_metadata save_dir)
                 (emit (''Downloading metadata file: '' @ download) w)))"

definition process_metadata :: "processor \<Rightarrow> path \<Rightarrow> world \<Rightarrow> (error + frame) \<times> world" where
  "process_metadata self save_dir w =
     (case ensure_raw self save_dir w of
        (Inl e, w1) \<Rightarrow> (Inl e, w1)
      | (Inr _, w1) \<Rightarrow>
          if path_exists w1 (output_csv self save_dir)
          then (let w2 = emit (''Metadata csv already exists. Skipping creation. Delete ''
                               @ join_path (output_csv self save_dir)
                               @ '' if you want to save again.'') w1
                in case read_csv (output_csv self save_dir) w2 of
                     Inl e \<Rightarrow> (Inl e, w2)
                   | Inr meta_df \<Rightarrow> (Inr meta_df, w2))
          else fresh_filter self save_dir w1)"

definition ts_save_path :: "processor \<Rightarrow> path \<Rightarrow> string \<Rightarrow> path" where
  "ts_save_path self save_dir building_id =
     path_join save_dir
       (''bldg_id-'' @ building_id @ ''-upgrade-'' @ upgrade self @ ''.parquet'')"

definition ts_url :: "processor \<Rightarrow> string \<Rightarrow> string \<Rightarrow> url" where
  "ts_url self st building_id =
     time_series_url self @ ''/by_state/upgrade='' @ upgrade self @ ''/state='' @ st @ ''/''
     @ building_id @ ''-'' @ upgrade self @ ''.parquet''"

definition download_task ::
  "processor \<Rightarrow> path \<Rightarrow> series \<Rightarrow> world \<Rightarrow> (error + path \<times> string) \<times> world" where
  "download_task self save_dir row w =
     (case getitem row ''bldg_id'' of
        Inl e \<Rightarrow> (Inl e, w)
      | Inr c \<Rightarrow>
          (let building_id = str_cell c;
               save_path = ts_save_path self save_dir building_id
           in if path_exists w save_path then (Inr (save_path, building_id), w)
              else (case getitem row ''in.state'' of
                      Inl e \<Rightarrow> (Inl e, w)
                    | Inr st \<Rightarrow>
                        (case download_file (ts_url self (str_cell st) building_id) save_path w of
                           (Inl e, w') \<Rightarrow> (Inl e, w')
                         | (Inr _, w') \<Rightarrow> (Inr (save_path, building_id), w')))))"

text \<open>
  \<open>executor.map\<close>: one task per item, results in the order of the items. The tasks are
  run here one after the other, and the first failure is the one re-raised to the caller.
\<close>

fun executor_map ::
  "('a \<Rightarrow> world \<Rightarrow> (error + 'b) \<times> world) \<Rightarrow> 'a list \<Rightarrow> world \<Rightarrow> (error + 'b list) \<times> world" where
  "executor_map task [] w = (Inr [], w)"
| "executor_map task (x # xs) w =
     (case task x (w\<lparr>submitted := Suc (submitted w)\<rparr>) of
        (Inl e, w1) \<Rightarrow> (Inl e, w1)
      | (Inr y, w1) \<Rightarrow>
          (case executor_map task xs w1 of
             (Inl e, w2) \<Rightarrow> (Inl e, w2)
           | (Inr ys, w2) \<Rightarrow> (Inr (y # ys), w2)))"

definition process_building_time_series ::
  "processor \<Rightarrow> frame \<Rightarrow> path \<Rightarrow> world \<Rightarrow> (error + path list \<times> string list) \<times> world" where
  "process_building_time_series self data_frame save_dir w =
     (let num_workers = max 1 (cpu_count w - 1);
          w1 = emit (''Number of workers: '' @ str_int num_workers) w;
          data_rows = iterrows data_frame
      in case executor_map (download_task self save_dir) data_rows w1 of
           (Inl e, w2) \<Rightarrow> (Inl e, w2)
         | (Inr results, w2) \<Rightarrow>
             (if results \<noteq> [] then (Inr (map fst results, map snd results), w2)
              else (Inr ([], []), w2)))"

section \<open>Auxiliary notions\<close>

text \<open>
  A row is settled in a world when its task there returns without touching the file system:
  its \<open>bldg_id\<close> is present, and either its canonical file exists, or its state is present
  and the server answers its URL with a status other than 200.
\<close>

definition settled :: "processor \<Rightarrow> path \<Rightarrow> world \<Rightarrow> series \<Rightarrow> bool" where
  "settled self save_dir w row =
     (case getitem row ''bldg_id'' of
        Inl _ \<Rightarrow> False
      | Inr c \<Rightarrow>
          path_exists w (ts_save_path self save_dir (str_cell c))
          \<or> (case getitem row ''in.state'' of
                Inl _ \<Rightarrow> False
              | Inr st \<Rightarrow>
                  (case remote w (ts_url self (str_cell st) (str_cell c)) of
                     Response sc _ \<Rightarrow> sc \<noteq> 200
                   | NoResponse \<Rightarrow> False)))"

section \<open>Example inputs\<close>

text \<open>
  The reader of the example worlds does what pandas does on the files of the examples: a
  column whose fields are all integer literals is read as integers (so \<open>007\<close> becomes 7),
  any other column as strings, and the rows are numbered from 0; a file that is no CSV table
  is refused.
\<close>

definition digit_value :: "char \<Rightarrow> nat" where
  "digit_value c = length (takeWhile (\<lambda>d. d \<noteq> c) ''0123456789'')"

definition is_digits :: "string \<Rightarrow> bool" where
  "is_digits s \<longleftrightarrow> s \<noteq> [] \<and> list_all (\<lambda>c. c \<in> set ''0123456789'') s"

definition nat_of_digits :: "string \<Rightarrow> nat" where
  "nat_of_digits s = foldl (\<lambda>n c. 10 * n + digit_value c) 0 s"

definition is_int_text :: "string \<Rightarrow> bool" where
  "is_int_text s =
     (case s of [] \<Rightarrow> False | c # cs \<Rightarrow> if c = CHR ''-'' then is_digits cs else is_digits s)"

definition int_of_text :: "string \<Rightarrow> int" where
  "int_of_text s =
     (case s of
        [] \<Rightarrow> 0
      | c # cs \<Rightarrow> if c = CHR ''-'' then - int (nat_of_digits cs) else int (nat_of_digits s))"

definition typed_cells :: "string list list \<Rightarrow> cell list list" where
  "typed_cells rows =
     map (\<lambda>r. map (\<lambda>(j, t). if list_all (\<lambda>r'. j < length r' \<and> is_int_text (r' ! j)) rows
                            then IntCell (int_of_text t) else StrCell t)
                  (enumerate 0 r))
         rows"

definition inferring_reader :: "content \<Rightarrow> error + frame" where
  "inferring_reader c =
     (case c of
        CsvData header rows \<Rightarrow>
          Inr \<lparr>index_name = None, columns = header, recs = range_index (typed_cells rows)\<rparr>
      | _ \<Rightarrow> Inl ParserError)"

text \<open>
  A server that answers every request with status 404, and one that answers every request
  with status 200 and a small table. In both, the directory \<open>data\<close> exists and is empty.
\<close>

definition refusing_world :: world where
  "refusing_world =
     \<lparr>fs = [[] \<mapsto> Dir, [''data''] \<mapsto> Dir], remote = (\<lambda>u. Response 404 (OtherData [])),
      cpu_count = 4, requests = [], out = [], submitted = 0, csv_reader = inferring_reader\<rparr>"

definition two_buildings :: frame where
  "two_buildings =
     \<lparr>index_name = None, columns = [''bldg_id'', ''in.state''],
      recs = [(IntCell 0, [IntCell 101, StrCell ''DE'']),
              (IntCell 1, [IntCell 102, StrCell ''DE''])]\<rparr>"

definition serving_world :: world where
  "serving_world = refusing_world\<lparr>remote := (\<lambda>u. Response 200 (ParquetData two_buildings))\<rparr>"

text \<open>The time-series file of building 101 is already on disk; the frame has no state column.\<close>

definition cached_world :: world where
  "cached_world =
     refusing_world\<lparr>fs := [[] \<mapsto> Dir, [''data''] \<mapsto> Dir,
                            [''data'', ''bldg_id-101-upgrade-0.parquet''] \<mapsto> File (OtherData [])]\<rparr>"

definition ids_only :: frame where
  "ids_only = \<lparr>index_name = None, columns = [''bldg_id''], recs = [(IntCell 0, [IntCell 101])]\<rparr>"

definition no_buildings :: frame where
  "no_buildings = \<lparr>index_name = None, columns = [''bldg_id''], recs = []\<rparr>"

text \<open>A small metadata table, indexed by building id, already on disk as the raw file.\<close>

definition sample_metadata :: frame where
  "sample_metadata =
     \<lparr>index_name = Some ''bldg_id'',
      columns = [''in.state'', ''in.county_name'', ''in.comstock_building_type''],
      recs = [(IntCell 101, [StrCell ''DE'', StrCell ''DE, Kent County'', StrCell ''SmallOffice'']),
              (IntCell 102, [StrCell ''DE'', StrCell ''DE, Sussex County'', StrCell ''MediumOffice'']),
              (IntCell 103, [StrCell ''NY'', StrCell ''NY, Kings County'', StrCell ''SmallOffice''])]\<rparr>"

definition metadata_world :: world where
  "metadata_world =
     refusing_world\<lparr>fs := [[] \<mapsto> Dir, [''data''] \<mapsto> Dir,
                            [''data'', ''comstock_metadata.parquet'']
                              \<mapsto> File (ParquetData sample_metadata)]\<rparr>"

definition de_processor :: processor where
  "de_processor = new_processor ''DE'' ''All'' ''SmallOffice'' ''0'' [''data'']"

definition all_processor :: processor where
  "all_processor = new_processor ''All'' ''All'' ''All'' ''0'' [''data'']"

definition de_small_offices :: frame where
  "de_small_offices =
     \<lparr>index_name = None,
      columns = [''bldg_id'', ''in.state'', ''in.county_name'', ''in.comstock_building_type''],
      recs = [(IntCell 0, [IntCell 101, StrCell ''DE'', StrCell ''DE, Kent County'',
                           StrCell ''SmallOffice''])]\<rparr>"

definition whole_table :: frame where
  "whole_table =
     \<lparr>index_name = None,
      columns = [''bldg_id'', ''in.state'', ''in.county_name'', ''in.comstock_building_type''],
      recs = [(IntCell 0, [IntCell 101, StrCell ''DE'', StrCell ''DE, Kent County'',
                           StrCell ''SmallOffice'']),
              (IntCell 1, [IntCell 102, StrCell ''DE'', StrCell ''DE, Sussex County'',
                           StrCell ''MediumOffice'']),
              (IntCell 2, [IntCell 103, StrCell ''NY'', StrCell ''NY, Kings County'',
                           StrCell ''SmallOffice''])]\<rparr>"

text \<open>
  A query with a county but no state; a world in which its projection file is already on
  disk; and a world that holds the projection file of the Delaware query but no raw file.
\<close>

definition county_only_processor :: processor where
  "county_only_processor = new_processor ''All'' ''Kent County'' ''All'' ''0'' [''data'']"


definition projection_only_world :: world where
  "projection_only_world =
     refusing_world\<lparr>fs := [[] \<mapsto> Dir, [''data''] \<mapsto> Dir,
                            [''data'', ''DE-All-SmallOffice-0-selected_metadata.csv'']
                              \<mapsto> File (CsvData (columns de_small_offices)
                                              (map (\<lambda>r. map str_cell (snd r))
                                                   (recs de_small_offices)))]\<rparr>"


text \<open>
  A raw table with a string column of digits, the frame the fresh-filter path returns for it,
  and the frame the reader makes of the projection file written from that.
\<close>

definition coded_metadata :: frame where
  "coded_metadata =
     \<lparr>index_name = Some ''bldg_id'',
      columns = [''in.state'', ''in.comstock_building_type'', ''in.tract''],
      recs = [(IntCell 101, [StrCell ''DE'', StrCell ''SmallOffice'', StrCell ''007''])]\<rparr>"

definition coded_world :: world where
  "coded_world =
     refusing_world\<lparr>fs := [[] \<mapsto> Dir, [''data''] \<mapsto> Dir,
                            [''data'', ''comstock_metadata.parquet'']
                              \<mapsto> File (ParquetData coded_metadata)]\<rparr>"

definition coded_fresh :: frame where
  "coded_fresh =
     \<lparr>index_name = None,
      columns = [''bldg_id'', ''in.state'', ''in.comstock_building_type'', ''in.tract''],
      recs = [(IntCell 0, [IntCell 101, StrCell ''DE'', StrCell ''SmallOffice'', StrCell ''007''])]\<rparr>"

definition coded_reloaded :: frame where
  "coded_reloaded =
     \<lparr>index_name = None,
      columns = [''bldg_id'', ''in.state'', ''in.comstock_building_type'', ''in.tract''],
      recs = [(IntCell 0, [IntCell 101, StrCell ''DE'', StrCell ''SmallOffice'', IntCell 7])]\<rparr>"

text \<open>
  A server that has the metadata table but none of the time-series files: it answers the
  metadata request with status 200 and every other request with status 404.
\<close>

definition partial_world :: world where
  "partial_world =
     refusing_world\<lparr>remote :=
       (\<lambda>u. if u = metadata_url de_processor @ ''/baseline.parquet''
             then Response 200 (ParquetData sample_metadata)
             else Response 404 (OtherData []))\<rparr>"

section \<open>Basic facts\<close>

lemma emit_fields [simp]:
  "fs (emit s w) = fs w" "remote (emit s w) = remote w" "requests (emit s w) = requests w"
  "submitted (emit s w) = submitted w" "cpu_count (emit s w) = cpu_count w"
  "csv_reader (emit s w) = csv_reader w" "out (emit s w) = out w @ [s]"
  by (simp_all add: emit_def)

lemma path_exists_emit [simp]: "path_exists (emit s w) p = path_exists w p"
  by (simp add: path_exists_def)

lemma path_exists_submitted [simp]:
  "path_exists (w\<lparr>submitted := n\<rparr>) p = path_exists w p"
  by (simp add: path_exists_def)

lemma filter_notices_fields [simp]:
  "fs (filter_notices self w) = fs w" "remote (filter_notices self w) = remote w"
  "requests (filter_notices self w) = requests w"
  "csv_reader (filter_notices self w) = csv_reader w"
  by (simp_all add: filter_notices_def)

subsection \<open>Joining paths\<close>

lemma split_slash_nonempty [simp]: "split_slash s \<noteq> []"
  by (induction s) (simp_all split: list.splits)

lemma split_slash_plain: "CHR ''/'' \<notin> set s \<Longrightarrow> split_slash s = [s]"
  by (induction s) auto

lemma path_join_name:
  assumes "CHR ''/'' \<notin> set s" and "s \<noteq> []" and "s \<noteq> ''.''"
  shows "path_join p s = p @ [s]"
proof -
  from assms(1,2) have "hd s \<noteq> CHR ''/''" by (cases s) auto
  with assms(2) have "anchor s = []"
    by (cases s) (auto simp: anchor_def)
  with assms show ?thesis
    by (simp add: path_join_def name_parts_def split_slash_plain)
qed

lemma split_slash_append:
  assumes "CHR ''/'' \<notin> set t"
  shows "split_slash (s @ t) = butlast (split_slash s) @ [last (split_slash s) @ t]"
proof (induction s)
  case Nil
  from assms show ?case by (simp add: split_slash_plain)
next
  case (Cons c s)
  show ?case
  proof (cases "c = CHR ''/''")
    case True
    with Cons show ?thesis by simp
  next
    case False
    obtain y ys where y: "split_slash s = y # ys"
      by (cases "split_slash s") simp_all
    with Cons False show ?thesis
      by (cases ys) simp_all
  qed
qed

lemma path_join_suffix:
  assumes "CHR ''/'' \<notin> set t" and "2 \<le> length t"
  shows "\<exists>pre z. path_join p (x @ t) = pre @ [z @ t]"
proof -
  let ?keep = "\<lambda>x. x \<noteq> [] \<and> x \<noteq> ''.''"
  let ?z = "last (split_slash x)"
  from assms(2) have "?keep (?z @ t)"
    by (cases t) (auto simp: append_eq_Cons_conv)
  then have "name_parts (x @ t) = filter ?keep (butlast (split_slash x)) @ [?z @ t]"
    by (simp add: name_parts_def split_slash_append [OF assms(1)])
  then show ?thesis
    by (cases "anchor (x @ t) = []") (auto simp: path_join_def intro: exI [of _ "_ # _"])
qed

lemma str_int_101 [simp]: "str_int 101 = ''101''"
  by code_simp

lemma str_int_102 [simp]: "str_int 102 = ''102''"
  by code_simp

lemma str_int_103 [simp]: "str_int 103 = ''103''"
  by code_simp

lemma str_int_3 [simp]: "str_int 3 = ''3''"
  by code_simp

lemma raw_metadata_parts: "raw_metadata save_dir = save_dir @ [''comstock_metadata.parquet'']"
  by (simp add: raw_metadata_def path_join_name)

lemmas eval_defs =
  process_building_time_series_def iterrows_def download_task_def getitem_def ts_save_path_def
  ts_url_def download_file_def write_file_def path_exists_def parent_def emit_def
  new_processor_def path_join_name Let_def

subsection \<open>Writing files\<close>

lemma write_file_effect:
  assumes "write_file p c w = (r, w')"
  shows "remote w' = remote w" and "requests w' = requests w"
    and "path_exists w q \<Longrightarrow> path_exists w' q"
    and "r = Inr () \<Longrightarrow> path_exists w' p"
  using assms
  by (auto simp: write_file_def path_exists_def split: option.splits node.splits)

lemma write_file_other:
  assumes "write_file p c w = (r, w')" and "q \<noteq> p"
  shows "fs w' q = fs w q"
  using assms by (auto simp: write_file_def split: option.splits node.splits)

lemma write_file_fields:
  assumes "write_file p c w = (r, w')"
  shows "out w' = out w" and "cpu_count w' = cpu_count w" and "submitted w' = submitted w"
    and "csv_reader w' = csv_reader w"
  using assms by (auto simp: write_file_def split: option.splits node.splits)

lemma write_file_written:
  assumes "write_file p c w = (Inr x, w')"
  shows "fs w' = (fs w)(p \<mapsto> File c)" and "fs w p \<noteq> Some Dir" and "fs w (parent p) = Some Dir"
  using assms by (auto simp: write_file_def split: option.splits node.splits)

lemma to_csv_written:
  assumes "to_csv df p w = (Inr x, w')"
  shows "fs w' = (fs w)(p \<mapsto> File (CsvData (columns df) (map (\<lambda>r. map str_cell (snd r)) (recs df))))"
    and "remote w' = remote w" and "requests w' = requests w" and "out w' = out w"
    and "csv_reader w' = csv_reader w"
proof -
  from assms have wr: "write_file p (CsvData (columns df) (map (\<lambda>r. map str_cell (snd r)) (recs df))) w
                         = (Inr x, w')"
    by (simp add: to_csv_def split: if_splits)
  from write_file_written(1) [OF wr] write_file_effect(1,2) [OF wr] write_file_fields(1,4) [OF wr]
  show "fs w' = (fs w)(p \<mapsto> File (CsvData (columns df) (map (\<lambda>r. map str_cell (snd r)) (recs df))))"
    "remote w' = remote w" "requests w' = requests w" "out w' = out w"
    "csv_reader w' = csv_reader w"
    by simp_all
qed

subsection \<open>Downloads\<close>

lemma download_file_failed:
  assumes "remote w u = Response sc body" and "sc \<noteq> 200"
  shows "download_file u p w
           = (Inr (), emit (''Failed to download file: '' @ u) (w\<lparr>requests := requests w @ [u]\<rparr>))"
  using assms by (simp add: download_file_def Let_def)

lemma ensure_raw_failed:
  assumes "\<not> path_exists w (raw_metadata save_dir)"
    and "remote w (metadata_url self @ ''/baseline.parquet'') = Response sc body"
    and "sc \<noteq> 200"
  shows "fst (ensure_raw self save_dir w) = Inr ()"
    and "fs (snd (ensure_raw self save_dir w)) = fs w"
    and "remote (snd (ensure_raw self save_dir w)) = remote w"
    and "requests (snd (ensure_raw self save_dir w))
           = requests w @ [metadata_url self @ ''/baseline.parquet'']"
  using assms by (simp_all add: ensure_raw_def Let_def download_file_failed)

lemma fresh_filter_missing:
  assumes "fs w (raw_metadata save_dir) = None"
  shows "fresh_filter self save_dir w = (Inl FileNotFoundError, filter_notices self w)"
  using assms by (simp add: fresh_filter_def Let_def read_parquet_def)

subsection \<open>One download task\<close>

lemma download_task_cached:
  assumes "getitem row ''bldg_id'' = Inr c"
    and "path_exists w (ts_save_path self save_dir (str_cell c))"
  shows "download_task self save_dir row w
           = (Inr (ts_save_path self save_dir (str_cell c), str_cell c), w)"
  using assms by (simp add: download_task_def Let_def)

lemma download_task_miss_no_state:
  assumes "getitem row ''bldg_id'' = Inr c"
    and "\<not> path_exists w (ts_save_path self save_dir (str_cell c))"
    and "map_of row ''in.state'' = None"
  shows "download_task self save_dir row w = (Inl (KeyError ''in.state''), w)"
  using assms by (simp add: download_task_def Let_def getitem_def)

lemma download_task_value:
  assumes "download_task self save_dir row w = (Inr x, w')"
  shows "\<exists>c. getitem row ''bldg_id'' = Inr c
              \<and> x = (ts_save_path self save_dir (str_cell c), str_cell c)"
  using assms
  by (auto simp: download_task_def Let_def split: sum.splits if_splits prod.splits)

subsection \<open>The pool\<close>

lemma executor_map_length:
  "executor_map task xs w = (Inr ys, w') \<Longrightarrow> length ys = length xs"
  by (induction xs arbitrary: w ys w') (auto split: sum.splits prod.splits)

lemma executor_map_nth:
  "executor_map task xs w = (Inr ys, w') \<Longrightarrow> i < length xs \<Longrightarrow>
     \<exists>wa wb. task (xs ! i) wa = (Inr (ys ! i), wb)"
proof (induction xs arbitrary: w ys w' i)
  case Nil
  then show ?case by simp
next
  case (Cons x xs)
  then show ?case
    by (cases i) (fastforce split: sum.splits prod.splits)+
qed

lemma executor_map_cached:
  assumes "\<forall>row \<in> set rows. \<exists>c. getitem row ''bldg_id'' = Inr c
              \<and> path_exists w (ts_save_path self save_dir (str_cell c))"
  shows "\<exists>ys. executor_map (download_task self save_dir) rows w
                 = (Inr ys, w\<lparr>submitted := submitted w + length rows\<rparr>)"
  using assms
proof (induction rows arbitrary: w)
  case Nil
  then show ?case by simp
next
  case (Cons row rows)
  let ?wa = "w\<lparr>submitted := Suc (submitted w)\<rparr>"
  from Cons.prems obtain c where c: "getitem row ''bldg_id'' = Inr c"
    "path_exists ?wa (ts_save_path self save_dir (str_cell c))"
    by auto
  have head: "download_task self save_dir row ?wa
                = (Inr (ts_save_path self save_dir (str_cell c), str_cell c), ?wa)"
    using c by (rule download_task_cached)
  have "\<forall>row \<in> set rows. \<exists>c. getitem row ''bldg_id'' = Inr c
              \<and> path_exists ?wa (ts_save_path self save_dir (str_cell c))"
    using Cons.prems by simp
  from Cons.IH [OF this] obtain ys where
    "executor_map (download_task self save_dir) rows ?wa
       = (Inr ys, ?wa\<lparr>submitted := submitted ?wa + length rows\<rparr>)" by blast
  then show ?case by (simp add: head)
qed

section \<open>Claims\<close>

text \<open>
  C10. The constructor creates the base directory with a single-level \<open>mkdir\<close>, and only
  when it does not exist. When the base directory is absent and so is its parent, construction
  fails with \<open>FileNotFoundError\<close> and creates nothing. When the base directory is absent and
  its parent is a directory, exactly the base directory is added. When the base directory
  exists, the file system is left as it was.
\<close>

theorem init_single_level_mkdir:
  "(\<not> path_exists w bd \<and> fs w (parent bd) = None \<longrightarrow>
      ComStockProcessor_init st cn bt up bd w = (Inl FileNotFoundError, w))
   \<and> (\<not> path_exists w bd \<and> fs w (parent bd) = Some Dir \<longrightarrow>
      ComStockProcessor_init st cn bt up bd w
        = (Inr (new_processor st cn bt up bd), w\<lparr>fs := (fs w)(bd \<mapsto> Dir)\<rparr>))
   \<and> (path_exists w bd \<longrightarrow>
      ComStockProcessor_init st cn bt up bd w = (Inr (new_processor st cn bt up bd), w))"
  by (simp add: ComStockProcessor_init_def mkdir_def path_exists_def)

theorem init_single_level_mkdir_witness:
  "ComStockProcessor_init ''CA'' ''All'' ''All'' ''0'' [''datasets'', ''comstock''] refusing_world
     = (Inl FileNotFoundError, refusing_world)
   \<and> ComStockProcessor_init ''CA'' ''All'' ''All'' ''0'' [''datasets''] refusing_world
     = (Inr (new_processor ''CA'' ''All'' ''All'' ''0'' [''datasets'']),
        refusing_world\<lparr>fs := (fs refusing_world)([''datasets''] \<mapsto> Dir)\<rparr>)
   \<and> ComStockProcessor_init ''CA'' ''All'' ''All'' ''0'' [''data''] refusing_world
     = (Inr (new_processor ''CA'' ''All'' ''All'' ''0'' [''data'']), refusing_world)"
  using init_single_level_mkdir
          [of refusing_world "[''datasets'', ''comstock'']" "''CA''" "''All''" "''All''" "''0''"]
        init_single_level_mkdir
          [of refusing_world "[''datasets'']" "''CA''" "''All''" "''All''" "''0''"]
        init_single_level_mkdir
          [of refusing_world "[''data'']" "''CA''" "''All''" "''All''" "''0''"]
  by (simp add: refusing_world_def path_exists_def parent_def)

text \<open>
  C7. For an empty row set, \<open>process_building_time_series\<close> returns two empty lists,
  hands no task to the pool (so no worker is started), issues no HTTP request and leaves
  the file system as it was.
\<close>

theorem empty_row_set_no_work:
  "recs data_frame = [] \<Longrightarrow>
     fst (process_building_time_series self data_frame save_dir w) = Inr ([], [])
     \<and> submitted (snd (process_building_time_series self data_frame save_dir w)) = submitted w
     \<and> requests (snd (process_building_time_series self data_frame save_dir w)) = requests w
     \<and> fs (snd (process_building_time_series self data_frame save_dir w)) = fs w"
  by (simp add: process_building_time_series_def iterrows_def Let_def)

theorem empty_row_set_no_work_witness:
  "recs no_buildings = []
   \<and> fst (process_building_time_series de_processor no_buildings [''data''] serving_world)
       = Inr ([], [])
   \<and> submitted (snd (process_building_time_series de_processor no_buildings [''data''] serving_world)) = 0
   \<and> requests (snd (process_building_time_series de_processor no_buildings [''data''] serving_world)) = []"
  using empty_row_set_no_work [of no_buildings de_processor "[''data'']" serving_world]
  by (simp add: no_buildings_def serving_world_def refusing_world_def)

text \<open>
  C4. When \<open>process_building_time_series\<close> returns, the path list and the id list each
  have one entry per input row, and the i-th entries are the canonical path and the
  stringified \<open>bldg_id\<close> of the i-th row in iteration order. They are functions of the rows
  alone: nothing of the file system, the server or the order in which tasks finish enters.
\<close>

theorem time_series_aligned:
  assumes "fst (process_building_time_series self data_frame save_dir w) = Inr (paths, ids)"
  shows "length paths = length (recs data_frame) \<and> length ids = length (recs data_frame)
         \<and> (\<forall>i < length (recs data_frame).
               \<exists>c. getitem (iterrows data_frame ! i) ''bldg_id'' = Inr c
                   \<and> ids ! i = str_cell c
                   \<and> paths ! i = ts_save_path self save_dir (str_cell c))"
proof -
  let ?w1 = "emit (''Number of workers: '' @ str_int (max 1 (cpu_count w - 1))) w"
  from assms obtain results w' where
    run: "executor_map (download_task self save_dir) (iterrows data_frame) ?w1 = (Inr results, w')"
    and out: "paths = map fst results" "ids = map snd results"
    by (auto simp: process_building_time_series_def Let_def split: sum.splits prod.splits if_splits)
  have len: "length results = length (recs data_frame)"
    using executor_map_length [OF run] by (simp add: iterrows_def)
  have "\<exists>c. getitem (iterrows data_frame ! i) ''bldg_id'' = Inr c
             \<and> ids ! i = str_cell c \<and> paths ! i = ts_save_path self save_dir (str_cell c)"
    if "i < length (recs data_frame)" for i
  proof -
    from that have "i < length (iterrows data_frame)" by (simp add: iterrows_def)
    from executor_map_nth [OF run this] obtain wa wb where
      "download_task self save_dir (iterrows data_frame ! i) wa = (Inr (results ! i), wb)"
      by blast
    from download_task_value [OF this] that len show ?thesis
      by (auto simp: out)
  qed
  with len show ?thesis by (simp add: out)
qed

theorem time_series_aligned_witness:
  "fst (process_building_time_series de_processor two_buildings [''data''] refusing_world)
     = Inr ([[''data'', ''bldg_id-101-upgrade-0.parquet''],
             [''data'', ''bldg_id-102-upgrade-0.parquet'']], [''101'', ''102''])
   \<and> length [[''data'', ''bldg_id-101-upgrade-0.parquet''],
              [''data'', ''bldg_id-102-upgrade-0.parquet'']] = length (recs two_buildings)
   \<and> length [''101'', ''102''] = length (recs two_buildings)"
proof -
  have run: "fst (process_building_time_series de_processor two_buildings [''data''] refusing_world)
     = Inr ([[''data'', ''bldg_id-101-upgrade-0.parquet''],
             [''data'', ''bldg_id-102-upgrade-0.parquet'']], [''101'', ''102''])"
    by (simp add: eval_defs refusing_world_def two_buildings_def de_processor_def)
  from time_series_aligned [OF run] run show ?thesis by simp
qed

text \<open>
  C6. When the raw metadata file is absent and the server answers the metadata request with
  a status other than 200, \<open>download_file\<close> returns normally and writes nothing, so the raw
  file is still missing when \<open>process_metadata\<close> ends. When the call goes on to read it
  (no projection file for the query exists), the read fails with \<open>FileNotFoundError\<close>, and
  that is what \<open>process_metadata\<close> hands to its caller.
\<close>

theorem metadata_download_failure_propagates:
  assumes "\<not> path_exists w (raw_metadata save_dir)"
    and "remote w (metadata_url self @ ''/baseline.parquet'') = Response sc body"
    and "sc \<noteq> 200"
  shows "fst (download_file (metadata_url self @ ''/baseline.parquet'') (raw_metadata save_dir) w) = Inr ()
         \<and> fs (snd (download_file (metadata_url self @ ''/baseline.parquet'') (raw_metadata save_dir) w)) = fs w
         \<and> \<not> path_exists (snd (process_metadata self save_dir w)) (raw_metadata save_dir)
         \<and> (\<not> path_exists w (output_csv self save_dir)
              \<longrightarrow> fst (process_metadata self save_dir w) = Inl FileNotFoundError)"
proof -
  obtain w1 where raw: "ensure_raw self save_dir w = (Inr (), w1)" and fs1: "fs w1 = fs w"
    using ensure_raw_failed(1,2) [OF assms] by (metis prod.collapse)
  have missing: "fs w1 (raw_metadata save_dir) = None"
    using assms(1) fs1 by (simp add: path_exists_def)
  have fresh: "fresh_filter self save_dir w1 = (Inl FileNotFoundError, filter_notices self w1)"
    using missing by (rule fresh_filter_missing)
  have a: "\<not> path_exists (snd (process_metadata self save_dir w)) (raw_metadata save_dir)"
    using missing
    by (simp add: process_metadata_def raw fresh Let_def path_exists_def split: sum.splits)
  have b: "fst (process_metadata self save_dir w) = Inl FileNotFoundError"
    if "\<not> path_exists w (output_csv self save_dir)"
    using that fs1 by (simp add: process_metadata_def raw fresh path_exists_def)
  show ?thesis
    using a b by (simp add: download_file_failed [OF assms(2,3)])
qed

theorem metadata_download_failure_propagates_witness:
  "\<not> path_exists refusing_world (raw_metadata [''data''])
   \<and> \<not> path_exists refusing_world (output_csv de_processor [''data''])
   \<and> fst (process_metadata de_processor [''data''] refusing_world) = Inl FileNotFoundError
   \<and> \<not> path_exists (snd (process_metadata de_processor [''data''] refusing_world))
         (raw_metadata [''data''])"
proof -
  have h: "\<not> path_exists refusing_world (raw_metadata [''data''])"
    "remote refusing_world (metadata_url de_processor @ ''/baseline.parquet'')
       = Response 404 (OtherData [])"
    "(404::nat) \<noteq> 200"
    "\<not> path_exists refusing_world (output_csv de_processor [''data''])"
    by (simp_all add: refusing_world_def path_exists_def raw_metadata_parts output_csv_def
        path_join_name de_processor_def new_processor_def)
  from metadata_download_failure_propagates [OF h(1-3)] h show ?thesis by simp
qed

text \<open>
  C9. A task whose canonical file exists returns the path and id with the world untouched,
  having looked up \<open>bldg_id\<close> only: whatever the row holds (or lacks) under \<open>in.state\<close>
  plays no part, and no URL is requested. Hence a row set in which every row has its file
  on disk is processed without error and without requests, with or without a state column.
  On a cache miss, a row without \<open>in.state\<close> fails with \<open>KeyError\<close>.
\<close>

theorem cached_rows_need_only_building_id:
  "(getitem row ''bldg_id'' = Inr c \<and> path_exists w (ts_save_path self save_dir (str_cell c))
      \<longrightarrow> download_task self save_dir row w
            = (Inr (ts_save_path self save_dir (str_cell c), str_cell c), w))
   \<and> ((\<forall>r \<in> set (iterrows data_frame). \<exists>c. getitem r ''bldg_id'' = Inr c
              \<and> path_exists w (ts_save_path self save_dir (str_cell c)))
      \<longrightarrow> (\<exists>paths ids. fst (process_building_time_series self data_frame save_dir w) = Inr (paths, ids))
          \<and> requests (snd (process_building_time_series self data_frame save_dir w)) = requests w
          \<and> fs (snd (process_building_time_series self data_frame save_dir w)) = fs w)
   \<and> (getitem row ''bldg_id'' = Inr c \<and> \<not> path_exists w (ts_save_path self save_dir (str_cell c))
        \<and> map_of row ''in.state'' = None
      \<longrightarrow> download_task self save_dir row w = (Inl (KeyError ''in.state''), w))"
proof -
  let ?w1 = "emit (''Number of workers: '' @ str_int (max 1 (cpu_count w - 1))) w"
  have "(\<exists>paths ids. fst (process_building_time_series self data_frame save_dir w) = Inr (paths, ids))
          \<and> requests (snd (process_building_time_series self data_frame save_dir w)) = requests w
          \<and> fs (snd (process_building_time_series self data_frame save_dir w)) = fs w"
    if "\<forall>r \<in> set (iterrows data_frame). \<exists>c. getitem r ''bldg_id'' = Inr c
              \<and> path_exists w (ts_save_path self save_dir (str_cell c))"
  proof -
    from that have "\<forall>r \<in> set (iterrows data_frame). \<exists>c. getitem r ''bldg_id'' = Inr c
              \<and> path_exists ?w1 (ts_save_path self save_dir (str_cell c))"
      by simp
    from executor_map_cached [OF this] obtain ys where
      "executor_map (download_task self save_dir) (iterrows data_frame) ?w1
         = (Inr ys, ?w1\<lparr>submitted := submitted ?w1 + length (iterrows data_frame)\<rparr>)"
      by blast
    then show ?thesis
      by (simp add: process_building_time_series_def Let_def)
  qed
  then show ?thesis
    using download_task_cached download_task_miss_no_state by blast
qed

theorem cached_rows_need_only_building_id_witness:
  "download_task de_processor [''data''] [(''bldg_id'', IntCell 101)] cached_world
     = (Inr ([''data'', ''bldg_id-101-upgrade-0.parquet''], ''101''), cached_world)
   \<and> fst (process_building_time_series de_processor ids_only [''data''] cached_world)
     = Inr ([[''data'', ''bldg_id-101-upgrade-0.parquet'']], [''101''])
   \<and> requests (snd (process_building_time_series de_processor ids_only [''data''] cached_world))
     = requests cached_world
   \<and> download_task de_processor [''data''] [(''bldg_id'', IntCell 102)] cached_world
     = (Inl (KeyError ''in.state''), cached_world)"
proof -
  have sp: "ts_save_path de_processor [''data''] ''101'' = [''data'', ''bldg_id-101-upgrade-0.parquet'']"
    "ts_save_path de_processor [''data''] ''102'' = [''data'', ''bldg_id-102-upgrade-0.parquet'']"
    by (simp_all add: ts_save_path_def path_join_name de_processor_def new_processor_def)
  have hit: "getitem [(''bldg_id'', IntCell 101)] ''bldg_id'' = Inr (IntCell 101)
     \<and> path_exists cached_world (ts_save_path de_processor [''data''] (str_cell (IntCell 101)))"
    by (simp add: sp getitem_def path_exists_def cached_world_def)
  have all_hit: "\<forall>r \<in> set (iterrows ids_only). \<exists>c. getitem r ''bldg_id'' = Inr c
              \<and> path_exists cached_world (ts_save_path de_processor [''data''] (str_cell c))"
    using hit by (simp add: iterrows_def ids_only_def)
  have miss: "getitem [(''bldg_id'', IntCell 102)] ''bldg_id'' = Inr (IntCell 102)
     \<and> \<not> path_exists cached_world (ts_save_path de_processor [''data''] (str_cell (IntCell 102)))
     \<and> map_of [(''bldg_id'', IntCell 102)] ''in.state'' = None"
    by (simp add: sp getitem_def path_exists_def cached_world_def)
  have run: "fst (process_building_time_series de_processor ids_only [''data''] cached_world)
     = Inr ([[''data'', ''bldg_id-101-upgrade-0.parquet'']], [''101''])"
    by (simp add: eval_defs cached_world_def refusing_world_def ids_only_def de_processor_def)
  note t1 = cached_rows_need_only_building_id
        [of "[(''bldg_id'', IntCell 101)]" "IntCell 101" cached_world de_processor "[''data'']" ids_only]
  note t2 = cached_rows_need_only_building_id
        [of "[(''bldg_id'', IntCell 102)]" "IntCell 102" cached_world de_processor "[''data'']" ids_only]
  have a: "download_task de_processor [''data''] [(''bldg_id'', IntCell 101)] cached_world
     = (Inr ([''data'', ''bldg_id-101-upgrade-0.parquet''], ''101''), cached_world)"
    using t1 hit by (simp add: sp)
  have b: "requests (snd (process_building_time_series de_processor ids_only [''data''] cached_world))
     = requests cached_world"
    using t1 all_hit by blast
  have c: "download_task de_processor [''data''] [(''bldg_id'', IntCell 102)] cached_world
     = (Inl (KeyError ''in.state''), cached_world)"
    using t2 miss by blast
  from a b c run show ?thesis by blast
qed

subsection \<open>Reruns of the time-series fetch\<close>

lemma download_file_effect:
  assumes "download_file u p w = (r, w')"
  shows "remote w' = remote w"
    and "path_exists w q \<Longrightarrow> path_exists w' q"
proof -
  show "remote w' = remote w"
    using assms write_file_effect(1) [of p _ "w\<lparr>requests := requests w @ [u]\<rparr>" r w']
    by (auto simp: download_file_def Let_def split: http.splits if_splits)
  show "path_exists w q \<Longrightarrow> path_exists w' q"
    using assms write_file_effect(3) [of p _ "w\<lparr>requests := requests w @ [u]\<rparr>" r w' q]
    by (auto simp: download_file_def Let_def path_exists_def split: http.splits if_splits)
qed

lemma download_file_ok_status:
  assumes "download_file u p w = (Inr x, w')" and "remote w u = Response 200 body"
  shows "path_exists w' p"
  using assms write_file_effect(4) [of p body "w\<lparr>requests := requests w @ [u]\<rparr>" "Inr x" w']
  by (simp add: download_file_def Let_def)

lemma download_task_effect:
  assumes "download_task self save_dir row w = (r, w')"
  shows "remote w' = remote w"
    and "path_exists w q \<Longrightarrow> path_exists w' q"
  using assms download_file_effect
  by (auto simp: download_task_def Let_def split: sum.splits if_splits prod.splits)

lemma settled_mono:
  assumes "settled self save_dir w row" and "remote w' = remote w"
    and "\<And>q. path_exists w q \<Longrightarrow> path_exists w' q"
  shows "settled self save_dir w' row"
  using assms by (auto simp: settled_def split: sum.splits)

lemma download_task_settles:
  assumes "download_task self save_dir row w = (Inr x, w')"
  shows "settled self save_dir w' row"
proof -
  from download_task_value [OF assms] obtain c where
    c: "getitem row ''bldg_id'' = Inr c" by blast
  let ?p = "ts_save_path self save_dir (str_cell c)"
  show ?thesis
  proof (cases "path_exists w ?p")
    case True
    with assms c have "w' = w" by (simp add: download_task_def Let_def)
    with True c show ?thesis by (simp add: settled_def)
  next
    case False
    with assms c obtain st where st: "getitem row ''in.state'' = Inr st"
      and dl: "download_file (ts_url self (str_cell st) (str_cell c)) ?p w = (Inr (), w')"
      by (auto simp: download_task_def Let_def split: sum.splits prod.splits)
    let ?u = "ts_url self (str_cell st) (str_cell c)"
    from dl obtain sc body where resp: "remote w ?u = Response sc body"
      by (auto simp: download_file_def Let_def split: http.splits)
    have rem: "remote w' = remote w" using download_file_effect(1) [OF dl] .
    show ?thesis
    proof (cases "sc = 200")
      case True
      with download_file_ok_status [OF dl] resp have "path_exists w' ?p" by simp
      with c show ?thesis by (simp add: settled_def)
    next
      case False
      with c st resp rem show ?thesis by (simp add: settled_def)
    qed
  qed
qed

lemma executor_map_effect:
  assumes "executor_map (download_task self save_dir) rows w = (r, w')"
  shows "remote w' = remote w \<and> (\<forall>q. path_exists w q \<longrightarrow> path_exists w' q)"
  using assms
proof (induction rows arbitrary: w r w')
  case Nil
  then show ?case by simp
next
  case (Cons row rows)
  let ?wa = "w\<lparr>submitted := Suc (submitted w)\<rparr>"
  obtain r1 w1 where head: "download_task self save_dir row ?wa = (r1, w1)"
    by (cases "download_task self save_dir row ?wa")
  have e1: "remote w1 = remote w" "\<And>q. path_exists w q \<Longrightarrow> path_exists w1 q"
    using download_task_effect [OF head] by simp_all
  show ?case
  proof (cases r1)
    case (Inl e)
    with Cons.prems head have "w' = w1" by simp
    with e1 show ?thesis by simp
  next
    case (Inr y)
    obtain r2 w2 where tail: "executor_map (download_task self save_dir) rows w1 = (r2, w2)"
      by (cases "executor_map (download_task self save_dir) rows w1")
    from Cons.IH [OF tail] have e2: "remote w2 = remote w1"
      "\<And>q. path_exists w1 q \<Longrightarrow> path_exists w2 q" by simp_all
    from Cons.prems head Inr tail have "w' = w2"
      by (auto split: sum.splits)
    with e1 e2 show ?thesis by simp
  qed
qed

lemma executor_map_settles:
  assumes "executor_map (download_task self save_dir) rows w = (Inr ys, w')"
  shows "\<forall>row \<in> set rows. settled self save_dir w' row"
  using assms
proof (induction rows arbitrary: w ys w')
  case Nil
  then show ?case by simp
next
  case (Cons row rows)
  let ?wa = "w\<lparr>submitted := Suc (submitted w)\<rparr>"
  from Cons.prems obtain y w1 zs where
    head: "download_task self save_dir row ?wa = (Inr y, w1)"
    and tail: "executor_map (download_task self save_dir) rows w1 = (Inr zs, w')"
    by (auto split: sum.splits prod.splits)
  have "settled self save_dir w1 row" using head by (rule download_task_settles)
  then have "settled self save_dir w' row"
    using executor_map_effect [OF tail] by (auto intro: settled_mono)
  with Cons.IH [OF tail] show ?case by simp
qed

lemma download_task_settled:
  assumes "settled self save_dir w row"
  shows "\<exists>y w'. download_task self save_dir row w = (Inr y, w')
           \<and> fs w' = fs w \<and> remote w' = remote w"
proof -
  from assms obtain c where c: "getitem row ''bldg_id'' = Inr c"
    by (auto simp: settled_def split: sum.splits)
  let ?p = "ts_save_path self save_dir (str_cell c)"
  show ?thesis
  proof (cases "path_exists w ?p")
    case True
    from download_task_cached [OF c True] show ?thesis by simp
  next
    case False
    with assms c obtain st sc body where st: "getitem row ''in.state'' = Inr st"
      and resp: "remote w (ts_url self (str_cell st) (str_cell c)) = Response sc body"
      and sc: "sc \<noteq> 200"
      by (auto simp: settled_def split: sum.splits http.splits)
    with c False show ?thesis
      by (simp add: download_task_def Let_def download_file_failed)
  qed
qed

lemma executor_map_settled:
  assumes "\<forall>row \<in> set rows. settled self save_dir w row"
  shows "\<exists>ys w'. executor_map (download_task self save_dir) rows w = (Inr ys, w')
           \<and> fs w' = fs w \<and> remote w' = remote w"
  using assms
proof (induction rows arbitrary: w)
  case Nil
  then show ?case by simp
next
  case (Cons row rows)
  let ?wa = "w\<lparr>submitted := Suc (submitted w)\<rparr>"
  have same: "remote ?wa = remote w" "\<And>q. path_exists w q \<Longrightarrow> path_exists ?wa q"
    by simp_all
  from Cons.prems have "settled self save_dir ?wa row"
    using settled_mono [OF _ same] by simp
  from download_task_settled [OF this] obtain y w1 where
    head: "download_task self save_dir row ?wa = (Inr y, w1)"
    and k: "fs w1 = fs w" "remote w1 = remote w" by auto
  have "\<forall>r \<in> set rows. settled self save_dir w1 r"
  proof
    fix r assume "r \<in> set rows"
    with Cons.prems have "settled self save_dir w r" by simp
    then show "settled self save_dir w1 r"
      using k by (auto intro: settled_mono simp: path_exists_def)
  qed
  from Cons.IH [OF this] obtain zs w2 where
    tail: "executor_map (download_task self save_dir) rows w1 = (Inr zs, w2)"
    and k2: "fs w2 = fs w1" "remote w2 = remote w1" by auto
  with head k show ?case by simp
qed

lemma executor_map_results_agree:
  assumes "executor_map (download_task self save_dir) rows w = (Inr ys, w')"
    and "executor_map (download_task self save_dir) rows v = (Inr zs, v')"
  shows "ys = zs"
  using assms
proof (induction rows arbitrary: w ys w' v zs v')
  case Nil
  then show ?case by simp
next
  case (Cons row rows)
  from Cons.prems(1) obtain y w1 ys' where
    h1: "download_task self save_dir row (w\<lparr>submitted := Suc (submitted w)\<rparr>) = (Inr y, w1)"
    and t1: "executor_map (download_task self save_dir) rows w1 = (Inr ys', w')"
    and y: "ys = y # ys'"
    by (auto split: sum.splits prod.splits)
  from Cons.prems(2) obtain z v1 zs' where
    h2: "download_task self save_dir row (v\<lparr>submitted := Suc (submitted v)\<rparr>) = (Inr z, v1)"
    and t2: "executor_map (download_task self save_dir) rows v1 = (Inr zs', v')"
    and z: "zs = z # zs'"
    by (auto split: sum.splits prod.splits)
  from download_task_value [OF h1] download_task_value [OF h2] have "y = z" by auto
  with Cons.IH [OF t1 t2] y z show ?case by simp
qed

text \<open>
  C8. If a run of \<open>process_building_time_series\<close> returns, a second run over the same rows
  and directory, started in the world the first one left, returns the same two lists and
  leaves the file system as it found it. When every returned path exists after the first run
  (the first run succeeded), the second run issues no request at all: it is a no-op. In any
  world, a task whose canonical file exists returns at once, leaving the world untouched (no
  request, no write).
\<close>

theorem second_run_is_idempotent:
  assumes "fst (process_building_time_series self data_frame save_dir w) = Inr (paths, ids)"
    and "w1 = snd (process_building_time_series self data_frame save_dir w)"
  shows "fst (process_building_time_series self data_frame save_dir w1) = Inr (paths, ids)
         \<and> fs (snd (process_building_time_series self data_frame save_dir w1)) = fs w1
         \<and> ((\<forall>p \<in> set paths. path_exists w1 p)
              \<longrightarrow> requests (snd (process_building_time_series self data_frame save_dir w1))
                    = requests w1)
         \<and> (\<forall>row c w'. getitem row ''bldg_id'' = Inr c
                \<and> path_exists w' (ts_save_path self save_dir (str_cell c))
              \<longrightarrow> download_task self save_dir row w'
                    = (Inr (ts_save_path self save_dir (str_cell c), str_cell c), w'))"
proof -
  let ?task = "download_task self save_dir"
  let ?rows = "iterrows data_frame"
  let ?wa = "emit (''Number of workers: '' @ str_int (max 1 (cpu_count w - 1))) w"
  let ?wb = "emit (''Number of workers: '' @ str_int (max 1 (cpu_count w1 - 1))) w1"
  from assms obtain results where
    run1: "executor_map ?task ?rows ?wa = (Inr results, w1)"
    and out: "paths = map fst results" "ids = map snd results"
    by (auto simp: process_building_time_series_def Let_def split: sum.splits prod.splits if_splits)
  have "\<forall>row \<in> set ?rows. settled self save_dir w1 row"
    using run1 by (rule executor_map_settles)
  then have "\<forall>row \<in> set ?rows. settled self save_dir ?wb row"
    by (auto intro: settled_mono)
  from executor_map_settled [OF this] obtain ys w2 where
    run2: "executor_map ?task ?rows ?wb = (Inr ys, w2)" and fs2: "fs w2 = fs w1"
    by auto
  have ys: "ys = results"
    using run2 run1 by (rule executor_map_results_agree)
  have second: "process_building_time_series self data_frame save_dir w1 = (Inr (paths, ids), w2)"
    using run2 ys out by (simp add: process_building_time_series_def Let_def)
  have quiet: "requests w2 = requests w1" if all: "\<forall>p \<in> set paths. path_exists w1 p"
  proof -
    have "\<exists>c. getitem row ''bldg_id'' = Inr c
            \<and> path_exists ?wb (ts_save_path self save_dir (str_cell c))"
      if "row \<in> set ?rows" for row
    proof -
      from that obtain i where i: "i < length ?rows" "row = ?rows ! i"
        by (auto simp: in_set_conv_nth)
      from executor_map_nth [OF run1 i(1)] obtain wx wy where
        "?task (?rows ! i) wx = (Inr (results ! i), wy)" by blast
      from download_task_value [OF this] obtain c where
        c: "getitem row ''bldg_id'' = Inr c"
        "results ! i = (ts_save_path self save_dir (str_cell c), str_cell c)"
        using i(2) by auto
      have "i < length results"
        using executor_map_length [OF run1] i(1) by simp
      then have "fst (results ! i) \<in> set paths"
        by (simp add: out)
      with c(2) all have "path_exists w1 (ts_save_path self save_dir (str_cell c))"
        by simp
      with c(1) show ?thesis by auto
    qed
    then have "\<forall>row \<in> set ?rows. \<exists>c. getitem row ''bldg_id'' = Inr c
            \<and> path_exists ?wb (ts_save_path self save_dir (str_cell c))"
      by blast
    from executor_map_cached [OF this] run2 show ?thesis by auto
  qed
  show ?thesis
    using second fs2 quiet download_task_cached by simp
qed

theorem second_run_is_idempotent_witness:
  "fst (process_building_time_series de_processor two_buildings [''data''] serving_world)
     = Inr ([[''data'', ''bldg_id-101-upgrade-0.parquet''],
             [''data'', ''bldg_id-102-upgrade-0.parquet'']], [''101'', ''102''])
   \<and> fst (process_building_time_series de_processor two_buildings [''data'']
            (snd (process_building_time_series de_processor two_buildings [''data''] serving_world)))
     = Inr ([[''data'', ''bldg_id-101-upgrade-0.parquet''],
             [''data'', ''bldg_id-102-upgrade-0.parquet'']], [''101'', ''102''])
   \<and> requests (snd (process_building_time_series de_processor two_buildings [''data'']
            (snd (process_building_time_series de_processor two_buildings [''data''] serving_world))))
     = requests (snd (process_building_time_series de_processor two_buildings [''data''] serving_world))
   \<and> length (requests (snd (process_building_time_series de_processor two_buildings [''data'']
            serving_world))) = 2"
proof -
  let ?w1 = "snd (process_building_time_series de_processor two_buildings [''data''] serving_world)"
  let ?P = "[[''data'', ''bldg_id-101-upgrade-0.parquet''],
             [''data'', ''bldg_id-102-upgrade-0.parquet'']]"
  have run: "fst (process_building_time_series de_processor two_buildings [''data''] serving_world)
     = Inr (?P, [''101'', ''102''])"
    by (simp add: eval_defs serving_world_def refusing_world_def two_buildings_def de_processor_def)
  have ex: "\<forall>p \<in> set ?P. path_exists ?w1 p"
    by (simp add: eval_defs serving_world_def refusing_world_def two_buildings_def de_processor_def)
  have n: "length (requests ?w1) = 2"
    by (simp add: eval_defs serving_world_def refusing_world_def two_buildings_def de_processor_def)
  note t = second_run_is_idempotent [OF run refl]
  have a: "fst (process_building_time_series de_processor two_buildings [''data''] ?w1)
             = Inr (?P, [''101'', ''102''])"
    using t by blast
  have b: "requests (snd (process_building_time_series de_processor two_buildings [''data''] ?w1))
             = requests ?w1"
    using t ex by blast
  from run a b n show ?thesis by blast
qed

subsection \<open>Refused downloads\<close>

lemma executor_map_values:
  assumes "executor_map (download_task self save_dir) rows w = (Inr ys, w')"
    and "i < length rows"
  shows "\<exists>c. getitem (rows ! i) ''bldg_id'' = Inr c
             \<and> ys ! i = (ts_save_path self save_dir (str_cell c), str_cell c)"
proof -
  from executor_map_nth [OF assms] obtain wa wb where
    "download_task self save_dir (rows ! i) wa = (Inr (ys ! i), wb)" by blast
  from download_task_value [OF this] show ?thesis .
qed

lemma download_file_out:
  assumes "download_file u p w = (r, w')"
  shows "out w' = out w \<or> out w' = out w @ [''Failed to download file: '' @ u]"
  using assms write_file_fields(1) [of p _ "w\<lparr>requests := requests w @ [u]\<rparr>" r w']
  by (auto simp: download_file_def Let_def split: http.splits if_splits)

lemma download_task_out:
  assumes "download_task self save_dir row w = (r, w')"
  shows "\<exists>ls. out w' = out w @ ls"
proof -
  have "\<exists>ls. out w' = out w @ ls" if "download_file u p w = (r', w')" for u p r'
    using download_file_out [OF that] by auto
  with assms show ?thesis
    by (auto simp: download_task_def Let_def split: sum.splits if_splits prod.splits)
qed

lemma executor_map_out:
  assumes "executor_map (download_task self save_dir) rows w = (r, w')"
  shows "\<exists>ls. out w' = out w @ ls"
  using assms
proof (induction rows arbitrary: w r w')
  case Nil
  then show ?case by simp
next
  case (Cons row rows)
  let ?wa = "w\<lparr>submitted := Suc (submitted w)\<rparr>"
  obtain r1 w1 where head: "download_task self save_dir row ?wa = (r1, w1)"
    by (cases "download_task self save_dir row ?wa")
  from download_task_out [OF head] obtain l1 where o1: "out w1 = out w @ l1"
    by auto
  show ?case
  proof (cases r1)
    case (Inl e)
    with Cons.prems head have "w' = w1" by simp
    with o1 show ?thesis by simp
  next
    case (Inr y)
    obtain r2 w2 where tail: "executor_map (download_task self save_dir) rows w1 = (r2, w2)"
      by (cases "executor_map (download_task self save_dir) rows w1")
    from Cons.prems head Inr tail have w': "w' = w2"
      by (auto split: sum.splits)
    from Cons.IH [OF tail] obtain l2 where "out w2 = out w1 @ l2" by blast
    with o1 w' have "out w' = out w @ (l1 @ l2)" by simp
    then show ?thesis by blast
  qed
qed

text \<open>
  A task that returns although its file is missing afterwards has printed the failure notice,
  and so has a run of the pool over a row with such a file.
\<close>

lemma download_task_refused_notice:
  assumes "download_task self save_dir row w = (Inr y, w')"
    and "getitem row ''bldg_id'' = Inr c"
    and "\<not> path_exists w' (ts_save_path self save_dir (str_cell c))"
  shows "\<exists>st. getitem row ''in.state'' = Inr st
             \<and> ''Failed to download file: '' @ ts_url self (str_cell st) (str_cell c)
                 \<in> set (drop (length (out w)) (out w'))"
proof -
  let ?p = "ts_save_path self save_dir (str_cell c)"
  have miss: "\<not> path_exists w ?p"
    using download_task_effect(2) [OF assms(1)] assms(3) by blast
  with assms(1,2) obtain st where st: "getitem row ''in.state'' = Inr st"
    and dl: "download_file (ts_url self (str_cell st) (str_cell c)) ?p w = (Inr (), w')"
    by (auto simp: download_task_def Let_def split: sum.splits prod.splits)
  let ?u = "ts_url self (str_cell st) (str_cell c)"
  from dl obtain sc body where resp: "remote w ?u = Response sc body"
    by (auto simp: download_file_def Let_def split: http.splits)
  have "sc \<noteq> 200"
  proof
    assume "sc = 200"
    with download_file_ok_status [OF dl] resp have "path_exists w' ?p" by simp
    with assms(3) show False by simp
  qed
  with resp dl have "w' = emit (''Failed to download file: '' @ ?u) (w\<lparr>requests := requests w @ [?u]\<rparr>)"
    by (simp add: download_file_def Let_def)
  then have "''Failed to download file: '' @ ?u \<in> set (drop (length (out w)) (out w'))"
    by simp
  with st show ?thesis by blast
qed

lemma executor_map_refused_notice:
  assumes "executor_map (download_task self save_dir) rows w = (Inr ys, w')"
    and "row \<in> set rows" and "getitem row ''bldg_id'' = Inr c"
    and "\<not> path_exists w' (ts_save_path self save_dir (str_cell c))"
  shows "\<exists>st. getitem row ''in.state'' = Inr st
             \<and> ''Failed to download file: '' @ ts_url self (str_cell st) (str_cell c)
                 \<in> set (drop (length (out w)) (out w'))"
  using assms(1,2)
proof (induction rows arbitrary: w ys)
  case Nil
  then show ?case by simp
next
  case (Cons r rows)
  let ?wa = "w\<lparr>submitted := Suc (submitted w)\<rparr>"
  from Cons.prems(1) obtain y w1 zs where
    head: "download_task self save_dir r ?wa = (Inr y, w1)"
    and tail: "executor_map (download_task self save_dir) rows w1 = (Inr zs, w')"
    by (auto split: sum.splits prod.splits)
  from download_task_out [OF head] obtain l1 where o1: "out w1 = out w @ l1" by auto
  from executor_map_out [OF tail] obtain l2 where o2: "out w' = out w1 @ l2" by auto
  show ?case
  proof (cases "row = r")
    case True
    have "\<not> path_exists w1 (ts_save_path self save_dir (str_cell c))"
      using executor_map_effect [OF tail] assms(4) by blast
    from download_task_refused_notice [OF head [folded True] assms(3) this]
    obtain st where st: "getitem row ''in.state'' = Inr st"
      and "''Failed to download file: '' @ ts_url self (str_cell st) (str_cell c)
             \<in> set (drop (length (out ?wa)) (out w1))"
      by blast
    then have "''Failed to download file: '' @ ts_url self (str_cell st) (str_cell c)
             \<in> set (drop (length (out w)) (out w'))"
      by (simp add: o1 o2)
    with st show ?thesis by blast
  next
    case False
    with Cons.prems(2) have "row \<in> set rows" by simp
    from Cons.IH [OF tail this] obtain st where st: "getitem row ''in.state'' = Inr st"
      and "''Failed to download file: '' @ ts_url self (str_cell st) (str_cell c)
             \<in> set (drop (length (out w1)) (out w'))"
      by blast
    then have "''Failed to download file: '' @ ts_url self (str_cell st) (str_cell c)
             \<in> set (drop (length (out w)) (out w'))"
      by (simp add: o1 o2)
    with st show ?thesis by blast
  qed
qed

text \<open>
  C3. A time-series task whose download is answered with a status other than 200 prints the
  failure notice, writes nothing, and still returns the target path and the building id; the
  value is the one every returning run of the task gives, whatever the server answered.
  So it is in the lists \<open>process_building_time_series\<close> returns: whenever the call returns,
  the i-th path and id are those of the i-th row, whether its file was written or not, and a
  listed path with no file behind it is told apart only by the failure notice the call has
  printed.
  When the server refuses every row, the call returns all the same, every listed path is
  missing and the file system is as before. On the metadata path the same status also
  writes nothing, and the download step returns no path at all: the raw metadata file is
  simply still missing.
\<close>

theorem failed_download_still_reported:
  "(getitem row ''bldg_id'' = Inr c
      \<and> \<not> path_exists w (ts_save_path self save_dir (str_cell c))
      \<and> getitem row ''in.state'' = Inr st
      \<and> remote w (ts_url self (str_cell st) (str_cell c)) = Response sc body \<and> sc \<noteq> 200
    \<longrightarrow> download_task self save_dir row w
          = (Inr (ts_save_path self save_dir (str_cell c), str_cell c),
             emit (''Failed to download file: '' @ ts_url self (str_cell st) (str_cell c))
               (w\<lparr>requests := requests w @ [ts_url self (str_cell st) (str_cell c)]\<rparr>))
        \<and> \<not> path_exists (snd (download_task self save_dir row w))
                (ts_save_path self save_dir (str_cell c)))
   \<and> (getitem row ''bldg_id'' = Inr c
      \<longrightarrow> (\<forall>w2 x. fst (download_task self save_dir row w2) = Inr x
               \<longrightarrow> x = (ts_save_path self save_dir (str_cell c), str_cell c)))
   \<and> (fst (process_building_time_series self data_frame save_dir v) = Inr (paths, ids)
      \<longrightarrow> (\<forall>i < length (recs data_frame).
             \<exists>c. getitem (iterrows data_frame ! i) ''bldg_id'' = Inr c
                 \<and> paths ! i = ts_save_path self save_dir (str_cell c)
                 \<and> ids ! i = str_cell c
                 \<and> (\<not> path_exists (snd (process_building_time_series self data_frame save_dir v))
                          (paths ! i)
                      \<longrightarrow> (\<exists>st. getitem (iterrows data_frame ! i) ''in.state'' = Inr st
                             \<and> ''Failed to download file: '' @ ts_url self (str_cell st) (str_cell c)
                                 \<in> set (drop (length (out v))
                                          (out (snd (process_building_time_series self
                                                       data_frame save_dir v))))))))
   \<and> ((\<forall>r \<in> set (iterrows data_frame).
          \<exists>c st sc body. getitem r ''bldg_id'' = Inr c
              \<and> \<not> path_exists v (ts_save_path self save_dir (str_cell c))
              \<and> getitem r ''in.state'' = Inr st
              \<and> remote v (ts_url self (str_cell st) (str_cell c)) = Response sc body
              \<and> sc \<noteq> 200)
      \<longrightarrow> (\<exists>paths ids.
             fst (process_building_time_series self data_frame save_dir v) = Inr (paths, ids)
             \<and> length paths = length (recs data_frame)
             \<and> (\<forall>p \<in> set paths.
                   \<not> path_exists (snd (process_building_time_series self data_frame save_dir v)) p))
          \<and> fs (snd (process_building_time_series self data_frame save_dir v)) = fs v)
   \<and> (\<not> path_exists u (raw_metadata meta_dir)
        \<and> remote u (metadata_url self @ ''/baseline.parquet'') = Response sc' body'
        \<and> sc' \<noteq> 200
      \<longrightarrow> fst (ensure_raw self meta_dir u) = Inr ()
          \<and> fs (snd (ensure_raw self meta_dir u)) = fs u
          \<and> \<not> path_exists (snd (ensure_raw self meta_dir u)) (raw_metadata meta_dir))"
proof -
  let ?task = "download_task self save_dir"
  let ?rows = "iterrows data_frame"
  let ?v1 = "emit (''Number of workers: '' @ str_int (max 1 (cpu_count v - 1))) v"
  let ?run = "process_building_time_series self data_frame save_dir v"
  have task: "download_task self save_dir row w
           = (Inr (ts_save_path self save_dir (str_cell c), str_cell c),
              emit (''Failed to download file: '' @ ts_url self (str_cell st) (str_cell c))
                (w\<lparr>requests := requests w @ [ts_url self (str_cell st) (str_cell c)]\<rparr>))"
    if "getitem row ''bldg_id'' = Inr c"
      "\<not> path_exists w (ts_save_path self save_dir (str_cell c))"
      "getitem row ''in.state'' = Inr st"
      "remote w (ts_url self (str_cell st) (str_cell c)) = Response sc body" "sc \<noteq> 200"
    using that by (simp add: download_task_def Let_def download_file_failed)
  have same: "x = (ts_save_path self save_dir (str_cell c), str_cell c)"
    if "getitem row ''bldg_id'' = Inr c" "fst (download_task self save_dir row w2) = Inr x"
    for w2 x
  proof -
    from that(2) have "download_task self save_dir row w2
                      = (Inr x, snd (download_task self save_dir row w2))"
      by (metis prod.collapse)
    from download_task_value [OF this] that(1) show ?thesis by auto
  qed
  have listed: "\<exists>c. getitem (?rows ! i) ''bldg_id'' = Inr c
                 \<and> paths ! i = ts_save_path self save_dir (str_cell c)
                 \<and> ids ! i = str_cell c
                 \<and> (\<not> path_exists (snd ?run) (paths ! i)
                      \<longrightarrow> (\<exists>st. getitem (?rows ! i) ''in.state'' = Inr st
                             \<and> ''Failed to download file: '' @ ts_url self (str_cell st) (str_cell c)
                                 \<in> set (drop (length (out v)) (out (snd ?run)))))"
    if ret: "fst ?run = Inr (paths, ids)" and i: "i < length (recs data_frame)" for i
  proof -
    from ret obtain results where
      run: "executor_map ?task ?rows ?v1 = (Inr results, snd ?run)"
      and res: "paths = map fst results" "ids = map snd results"
      by (auto simp: process_building_time_series_def Let_def
               split: sum.splits prod.splits if_splits)
    from i have i': "i < length ?rows" by (simp add: iterrows_def)
    from executor_map_values [OF run i'] obtain c where
      c: "getitem (?rows ! i) ''bldg_id'' = Inr c"
      "results ! i = (ts_save_path self save_dir (str_cell c), str_cell c)" by blast
    have len: "i < length results"
      using executor_map_length [OF run] i' by simp
    have p: "paths ! i = ts_save_path self save_dir (str_cell c)" "ids ! i = str_cell c"
      using len c(2) by (simp_all add: res)
    have "\<exists>st. getitem (?rows ! i) ''in.state'' = Inr st
            \<and> ''Failed to download file: '' @ ts_url self (str_cell st) (str_cell c)
                \<in> set (drop (length (out v)) (out (snd ?run)))"
      if "\<not> path_exists (snd ?run) (paths ! i)"
    proof -
      from that p(1) have gone: "\<not> path_exists (snd ?run) (ts_save_path self save_dir (str_cell c))"
        by simp
      have mem: "?rows ! i \<in> set ?rows" using i' by simp
      from executor_map_refused_notice [OF run mem c(1) gone] obtain st where
        st: "getitem (?rows ! i) ''in.state'' = Inr st"
        and n: "''Failed to download file: '' @ ts_url self (str_cell st) (str_cell c)
                  \<in> set (drop (length (out ?v1)) (out (snd ?run)))"
        by blast
      from executor_map_out [OF run] obtain ls where "out (snd ?run) = out ?v1 @ ls" by auto
      with n have "''Failed to download file: '' @ ts_url self (str_cell st) (str_cell c)
                  \<in> set (drop (length (out v)) (out (snd ?run)))"
        by simp
      with st show ?thesis by blast
    qed
    with c(1) p show ?thesis by blast
  qed
  have refused: "(\<exists>paths ids. fst ?run = Inr (paths, ids)
             \<and> length paths = length (recs data_frame)
             \<and> (\<forall>p \<in> set paths. \<not> path_exists (snd ?run) p))
          \<and> fs (snd ?run) = fs v"
    if all: "\<forall>r \<in> set ?rows.
          \<exists>c st sc body. getitem r ''bldg_id'' = Inr c
              \<and> \<not> path_exists v (ts_save_path self save_dir (str_cell c))
              \<and> getitem r ''in.state'' = Inr st
              \<and> remote v (ts_url self (str_cell st) (str_cell c)) = Response sc body
              \<and> sc \<noteq> 200"
  proof -
    have "\<forall>r \<in> set ?rows. settled self save_dir ?v1 r"
    proof
      fix r assume "r \<in> set ?rows"
      with all obtain c st sc body where "getitem r ''bldg_id'' = Inr c"
        "getitem r ''in.state'' = Inr st"
        "remote v (ts_url self (str_cell st) (str_cell c)) = Response sc body" "sc \<noteq> 200"
        by blast
      then show "settled self save_dir ?v1 r" by (simp add: settled_def)
    qed
    from executor_map_settled [OF this] obtain ys v' where
      run: "executor_map ?task ?rows ?v1 = (Inr ys, v')" and fs': "fs v' = fs v"
      by auto
    have pm: "?run = (Inr (map fst ys, map snd ys), v')"
      using run by (simp add: process_building_time_series_def Let_def)
    have len: "length ys = length (recs data_frame)"
      using executor_map_length [OF run] by (simp add: iterrows_def)
    have "\<not> path_exists v' p" if "p \<in> set (map fst ys)" for p
    proof -
      from that obtain i where i: "i < length ys" "p = fst (ys ! i)"
        by (auto simp: in_set_conv_nth)
      with executor_map_length [OF run] have i': "i < length ?rows" by simp
      from executor_map_values [OF run i'] obtain c where
        c: "getitem (?rows ! i) ''bldg_id'' = Inr c"
        "ys ! i = (ts_save_path self save_dir (str_cell c), str_cell c)" by blast
      from all i' c(1) have "\<not> path_exists v (ts_save_path self save_dir (str_cell c))"
        by (metis nth_mem sum.inject(2))
      with i(2) c(2) fs' show ?thesis by (simp add: path_exists_def)
    qed
    with pm len fs' show ?thesis by simp
  qed
  have raw: "fst (ensure_raw self meta_dir u) = Inr () \<and> fs (snd (ensure_raw self meta_dir u)) = fs u
             \<and> \<not> path_exists (snd (ensure_raw self meta_dir u)) (raw_metadata meta_dir)"
    if "\<not> path_exists u (raw_metadata meta_dir)"
      "remote u (metadata_url self @ ''/baseline.parquet'') = Response sc' body'" "sc' \<noteq> 200"
    using ensure_raw_failed(1,2) [OF that] that(1) by (simp add: path_exists_def)
  have first: "download_task self save_dir row w
          = (Inr (ts_save_path self save_dir (str_cell c), str_cell c),
             emit (''Failed to download file: '' @ ts_url self (str_cell st) (str_cell c))
               (w\<lparr>requests := requests w @ [ts_url self (str_cell st) (str_cell c)]\<rparr>))
        \<and> \<not> path_exists (snd (download_task self save_dir row w))
                (ts_save_path self save_dir (str_cell c))"
    if "getitem row ''bldg_id'' = Inr c
      \<and> \<not> path_exists w (ts_save_path self save_dir (str_cell c))
      \<and> getitem row ''in.state'' = Inr st
      \<and> remote w (ts_url self (str_cell st) (str_cell c)) = Response sc body \<and> sc \<noteq> 200"
  proof -
    from that have t: "download_task self save_dir row w
           = (Inr (ts_save_path self save_dir (str_cell c), str_cell c),
              emit (''Failed to download file: '' @ ts_url self (str_cell st) (str_cell c))
                (w\<lparr>requests := requests w @ [ts_url self (str_cell st) (str_cell c)]\<rparr>))"
      by (intro task) simp_all
    from that have "\<not> path_exists w (ts_save_path self save_dir (str_cell c))" by simp
    then show ?thesis by (simp add: t path_exists_def)
  qed
  show ?thesis
    apply (intro conjI)
    subgoal using first by blast
    subgoal using same by blast
    subgoal using listed by blast
    subgoal using refused by blast
    subgoal using raw by blast
    done
qed

theorem failed_download_still_reported_witness:
  "download_task de_processor [''data'']
       [(''bldg_id'', IntCell 101), (''in.state'', StrCell ''DE'')] partial_world
     = (Inr ([''data'', ''bldg_id-101-upgrade-0.parquet''], ''101''),
        emit (''Failed to download file: '' @ ts_url de_processor ''DE'' ''101'')
          (partial_world\<lparr>requests := [ts_url de_processor ''DE'' ''101'']\<rparr>))
   \<and> fst (download_task de_processor [''data'']
            [(''bldg_id'', IntCell 101), (''in.state'', StrCell ''DE'')] serving_world)
     = Inr ([''data'', ''bldg_id-101-upgrade-0.parquet''], ''101'')
   \<and> path_exists (snd (download_task de_processor [''data'']
            [(''bldg_id'', IntCell 101), (''in.state'', StrCell ''DE'')] serving_world))
         [''data'', ''bldg_id-101-upgrade-0.parquet'']
   \<and> fst (process_building_time_series de_processor two_buildings [''data''] partial_world)
     = Inr ([[''data'', ''bldg_id-101-upgrade-0.parquet''],
             [''data'', ''bldg_id-102-upgrade-0.parquet'']], [''101'', ''102''])
   \<and> \<not> path_exists (snd (process_building_time_series de_processor two_buildings [''data'']
                              partial_world))
          [''data'', ''bldg_id-101-upgrade-0.parquet'']
   \<and> ''Failed to download file: '' @ ts_url de_processor ''DE'' ''101''
       \<in> set (out (snd (process_building_time_series de_processor two_buildings [''data'']
                           partial_world)))
   \<and> fs (snd (process_building_time_series de_processor two_buildings [''data''] partial_world))
       = fs partial_world
   \<and> fst (ensure_raw de_processor [''data''] refusing_world) = Inr ()
   \<and> fs (snd (ensure_raw de_processor [''data''] refusing_world)) = fs refusing_world"
proof -
  let ?row = "[(''bldg_id'', IntCell 101), (''in.state'', StrCell ''DE'')]"
  let ?P = "[[''data'', ''bldg_id-101-upgrade-0.parquet''],
             [''data'', ''bldg_id-102-upgrade-0.parquet'']]"
  let ?run = "process_building_time_series de_processor two_buildings [''data''] partial_world"
  have sp: "ts_save_path de_processor [''data''] ''101'' = [''data'', ''bldg_id-101-upgrade-0.parquet'']"
    "ts_save_path de_processor [''data''] ''102'' = [''data'', ''bldg_id-102-upgrade-0.parquet'']"
    by (simp_all add: ts_save_path_def path_join_name de_processor_def new_processor_def)
  have rows: "iterrows two_buildings
                = [?row, [(''bldg_id'', IntCell 102), (''in.state'', StrCell ''DE'')]]"
    by (simp add: iterrows_def two_buildings_def)
  have h1: "getitem ?row ''bldg_id'' = Inr (IntCell 101)"
    and h3: "getitem ?row ''in.state'' = Inr (StrCell ''DE'')"
    by (simp_all add: getitem_def)
  have h2: "\<not> path_exists partial_world (ts_save_path de_processor [''data''] (str_cell (IntCell 101)))"
    "\<not> path_exists partial_world (ts_save_path de_processor [''data''] (str_cell (IntCell 102)))"
    by (simp_all add: sp path_exists_def partial_world_def refusing_world_def)
  have h4: "remote partial_world (ts_url de_processor (str_cell (StrCell ''DE'')) (str_cell (IntCell 101)))
              = Response 404 (OtherData [])"
    "remote partial_world (ts_url de_processor (str_cell (StrCell ''DE'')) (str_cell (IntCell 102)))
              = Response 404 (OtherData [])"
    by (simp_all add: partial_world_def refusing_world_def ts_url_def de_processor_def
        new_processor_def)
  have h7: "remote refusing_world (metadata_url de_processor @ ''/baseline.parquet'')
              = Response 404 (OtherData [])"
    by (simp add: refusing_world_def)
  have h5: "(404::nat) \<noteq> 200" by simp
  have h6: "\<not> path_exists refusing_world (raw_metadata [''data''])"
    by (simp add: path_exists_def refusing_world_def raw_metadata_parts)
  have ok: "fst (download_task de_processor [''data''] ?row serving_world)
     = Inr ([''data'', ''bldg_id-101-upgrade-0.parquet''], ''101'')"
    "path_exists (snd (download_task de_processor [''data''] ?row serving_world))
         [''data'', ''bldg_id-101-upgrade-0.parquet'']"
    by (simp_all add: eval_defs serving_world_def refusing_world_def de_processor_def)
  have all_refused: "\<forall>r \<in> set (iterrows two_buildings).
          \<exists>c st sc body. getitem r ''bldg_id'' = Inr c
              \<and> \<not> path_exists partial_world (ts_save_path de_processor [''data''] (str_cell c))
              \<and> getitem r ''in.state'' = Inr st
              \<and> remote partial_world (ts_url de_processor (str_cell st) (str_cell c))
                  = Response sc body
              \<and> sc \<noteq> 200"
  proof
    fix r assume "r \<in> set (iterrows two_buildings)"
    then consider "r = ?row" | "r = [(''bldg_id'', IntCell 102), (''in.state'', StrCell ''DE'')]"
      by (auto simp: rows)
    then show "\<exists>c st sc body. getitem r ''bldg_id'' = Inr c
              \<and> \<not> path_exists partial_world (ts_save_path de_processor [''data''] (str_cell c))
              \<and> getitem r ''in.state'' = Inr st
              \<and> remote partial_world (ts_url de_processor (str_cell st) (str_cell c))
                  = Response sc body
              \<and> sc \<noteq> 200"
    proof cases
      case 1
      with h1 h2(1) h3 h4(1) h5 show ?thesis by blast
    next
      case 2
      have "getitem r ''bldg_id'' = Inr (IntCell 102)" "getitem r ''in.state'' = Inr (StrCell ''DE'')"
        using 2 by (simp_all add: getitem_def)
      with h2(2) h4(2) h5 show ?thesis by blast
    qed
  qed
  have run: "fst ?run = Inr (?P, [''101'', ''102''])"
    by (simp add: eval_defs partial_world_def refusing_world_def two_buildings_def
        de_processor_def)
  note t = failed_download_still_reported
             [where row = ?row and c = "IntCell 101" and w = partial_world
                and self = de_processor and save_dir = "[''data'']" and st = "StrCell ''DE''"
                and sc = 404 and body = "OtherData []" and data_frame = two_buildings
                and v = partial_world and paths = ?P and ids = "[''101'', ''102'']"
                and u = refusing_world and meta_dir = "[''data'']" and sc' = 404
                and body' = "OtherData []"]
  have a: "download_task de_processor [''data''] ?row partial_world
     = (Inr ([''data'', ''bldg_id-101-upgrade-0.parquet''], ''101''),
        emit (''Failed to download file: '' @ ts_url de_processor ''DE'' ''101'')
          (partial_world\<lparr>requests := [ts_url de_processor ''DE'' ''101'']\<rparr>))"
    using t [THEN conjunct1] h1 h2(1) h3 h4(1)
    by (simp add: sp partial_world_def refusing_world_def)
  from t all_refused have quiet: "(\<exists>paths ids. fst ?run = Inr (paths, ids)
             \<and> length paths = length (recs two_buildings)
             \<and> (\<forall>p \<in> set paths. \<not> path_exists (snd ?run) p))
          \<and> fs (snd ?run) = fs partial_world"
    by blast
  with run have gone: "\<not> path_exists (snd ?run) [''data'', ''bldg_id-101-upgrade-0.parquet'']"
    by auto
  from t run have "\<forall>i < length (recs two_buildings).
             \<exists>c. getitem (iterrows two_buildings ! i) ''bldg_id'' = Inr c
                 \<and> ?P ! i = ts_save_path de_processor [''data''] (str_cell c)
                 \<and> [''101'', ''102''] ! i = str_cell c
                 \<and> (\<not> path_exists (snd ?run) (?P ! i)
                      \<longrightarrow> (\<exists>st. getitem (iterrows two_buildings ! i) ''in.state'' = Inr st
                             \<and> ''Failed to download file: '' @ ts_url de_processor (str_cell st) (str_cell c)
                                 \<in> set (drop (length (out partial_world)) (out (snd ?run)))))"
    by blast
  moreover have "0 < length (recs two_buildings)" by (simp add: two_buildings_def)
  ultimately have "\<exists>c. getitem (iterrows two_buildings ! 0) ''bldg_id'' = Inr c
                 \<and> ?P ! 0 = ts_save_path de_processor [''data''] (str_cell c)
                 \<and> [''101'', ''102''] ! 0 = str_cell c
                 \<and> (\<not> path_exists (snd ?run) (?P ! 0)
                      \<longrightarrow> (\<exists>st. getitem (iterrows two_buildings ! 0) ''in.state'' = Inr st
                             \<and> ''Failed to download file: '' @ ts_url de_processor (str_cell st) (str_cell c)
                                 \<in> set (drop (length (out partial_world)) (out (snd ?run)))))"
    by blast
  then obtain c st where c: "getitem ?row ''bldg_id'' = Inr c"
    and st: "getitem ?row ''in.state'' = Inr st"
    and n: "''Failed to download file: '' @ ts_url de_processor (str_cell st) (str_cell c)
              \<in> set (drop (length (out partial_world)) (out (snd ?run)))"
    using gone by (auto simp: rows)
  from c st h1 h3 have "c = IntCell 101" "st = StrCell ''DE''" by simp_all
  with n have noticed: "''Failed to download file: '' @ ts_url de_processor ''DE'' ''101''
              \<in> set (out (snd ?run))"
    by (simp add: partial_world_def refusing_world_def)
  have b: "fst (ensure_raw de_processor [''data''] refusing_world) = Inr ()
     \<and> fs (snd (ensure_raw de_processor [''data''] refusing_world)) = fs refusing_world"
    using t [THEN conjunct2, THEN conjunct2, THEN conjunct2, THEN conjunct2] h5 h6 h7 by blast
  from a ok run gone noticed quiet b show ?thesis by blast
qed

section \<open>The metadata path\<close>

subsection \<open>Paths of the two caches\<close>

text \<open>
  Whatever the query fields hold (slashes included), the last part of the projection file's
  path ends in \<open>-selected_metadata.csv\<close>, so it is never the raw metadata file.
\<close>

lemma output_csv_last:
  "\<exists>pre z. output_csv self save_dir = pre @ [z @ ''-selected_metadata.csv'']"
proof -
  let ?x = "state self @ ''-'' @ county_name self @ ''-'' @ building_type self @ ''-''
            @ upgrade self"
  have "\<exists>pre z. path_join save_dir (?x @ ''-selected_metadata.csv'')
                  = pre @ [z @ ''-selected_metadata.csv'']"
    by (rule path_join_suffix) simp_all
  then show ?thesis by (simp add: output_csv_def)
qed

lemma raw_metadata_neq_output_csv: "raw_metadata save_dir \<noteq> output_csv self save_dir"
proof
  assume eq: "raw_metadata save_dir = output_csv self save_dir"
  from output_csv_last obtain pre z where
    "output_csv self save_dir = pre @ [z @ ''-selected_metadata.csv'']" by blast
  with eq have "last (raw_metadata save_dir) = z @ ''-selected_metadata.csv''"
    by simp
  then have "last ''comstock_metadata.parquet'' = last (z @ ''-selected_metadata.csv'')"
    by (simp add: raw_metadata_parts)
  then show False by simp
qed

lemma parent_raw_metadata [simp]: "parent (raw_metadata save_dir) = save_dir"
  by (simp add: parent_def raw_metadata_parts)

lemma download_file_other:
  assumes "download_file u p w = (r, w')" and "q \<noteq> p"
  shows "fs w' q = fs w q"
  using assms write_file_other [of p _ "w\<lparr>requests := requests w @ [u]\<rparr>" r w' q]
  by (auto simp: download_file_def Let_def split: http.splits if_splits)

lemma ensure_raw_other:
  assumes "ensure_raw self save_dir w = (r, w')" and "q \<noteq> raw_metadata save_dir"
  shows "fs w' q = fs w q"
  using assms download_file_other [of _ "raw_metadata save_dir" _ r w' q]
  by (auto simp: ensure_raw_def Let_def split: if_splits)

lemma ensure_raw_keeps_projection:
  assumes "ensure_raw self save_dir w = (r, w')"
  shows "path_exists w' (output_csv self save_dir) = path_exists w (output_csv self save_dir)"
  using ensure_raw_other [OF assms, of "output_csv self save_dir"] raw_metadata_neq_output_csv
  by (metis path_exists_def)

subsection \<open>Filtering and the index\<close>

lemma apply_filters_sound:
  assumes "apply_filters flts f = Inr g"
  shows "index_name g = index_name f" and "columns g = columns f"
    and "set (recs g) \<subseteq> set (recs f)"
    and "r \<in> set (recs g) \<Longrightarrow> flt \<in> set flts \<Longrightarrow> satisfies (stored_row f r) flt"
  using assms
  by (auto simp: apply_filters_def list_all_iff split: if_splits)

lemma map_snd_range_index [simp]: "map snd (range_index rows) = rows"
proof -
  have "map snd (map (\<lambda>(k, cs). (IntCell (int k), cs)) (enumerate n rows)) = rows" for n
    by (induction rows arbitrary: n) simp_all
  then show ?thesis by (simp add: range_index_def)
qed

lemma reset_index_result:
  assumes "reset_index f = Inr g"
  shows "index_name g = None" and "columns g = lifted_name f # columns f"
    and "recs g = range_index (map (\<lambda>r. fst r # snd r) (recs f))"
    and "iterrows g = map (\<lambda>r. (lifted_name f, fst r) # zip (columns f) (snd r)) (recs f)"
proof -
  from assms have g: "g = \<lparr>index_name = None, columns = lifted_name f # columns f,
                   recs = range_index (map (\<lambda>r. fst r # snd r) (recs f))\<rparr>"
    by (simp add: reset_index_def lifted_name_def Let_def split: if_splits)
  then show "index_name g = None" "columns g = lifted_name f # columns f"
    "recs g = range_index (map (\<lambda>r. fst r # snd r) (recs f))"
    by simp_all
  have "iterrows g = map (zip (columns g)) (map snd (recs g))"
    by (simp add: iterrows_def comp_def)
  also have "\<dots> = map (zip (lifted_name f # columns f)) (map (\<lambda>r. fst r # snd r) (recs f))"
    by (simp add: g)
  finally show "iterrows g = map (\<lambda>r. (lifted_name f, fst r) # zip (columns f) (snd r)) (recs f)"
    by (simp add: comp_def)
qed

lemma lifted_row_lookup:
  assumes "satisfies (stored_row f r) (c, v)" and "c \<noteq> ''index''" and "c \<noteq> ''level_0''"
  shows "map_of ((lifted_name f, fst r) # zip (columns f) (snd r)) c = Some (StrCell v)"
  using assms
  by (auto simp: satisfies_def stored_row_def lifted_name_def split: option.splits)

lemma fresh_filter_result:
  assumes "fresh_filter self save_dir w = (Inr df, w')"
  shows "\<exists>raw g. fs w (raw_metadata save_dir) = Some (File (ParquetData raw))
           \<and> (if build_filters self = [] then g = raw
               else apply_filters (build_filters self) raw = Inr g)
           \<and> reset_index g = Inr df
           \<and> fs w' = (fs w)(output_csv self save_dir
                          \<mapsto> File (CsvData (columns df)
                                          (map (\<lambda>r. map str_cell (snd r)) (recs df))))
           \<and> csv_reader w' = csv_reader w \<and> remote w' = remote w"
proof -
  let ?w1 = "filter_notices self w"
  let ?flt = "if length (build_filters self) = 0 then None else Some (build_filters self)"
  from assms obtain g where rd: "read_parquet (raw_metadata save_dir) ?flt ?w1 = Inr g"
    and rs: "reset_index g = Inr df"
    and wr: "to_csv df (output_csv self save_dir) ?w1 = (Inr (), w')"
    by (auto simp: fresh_filter_def Let_def split: sum.splits prod.splits)
  from rd obtain raw where raw: "fs w (raw_metadata save_dir) = Some (File (ParquetData raw))"
    and g: "if build_filters self = [] then g = raw
            else apply_filters (build_filters self) raw = Inr g"
    by (auto simp: read_parquet_def split: option.splits node.splits content.splits if_splits)
  from to_csv_written(1,2,5) [OF wr]
  have "fs w' = (fs w)(output_csv self save_dir
                          \<mapsto> File (CsvData (columns df)
                                          (map (\<lambda>r. map str_cell (snd r)) (recs df))))"
    "csv_reader w' = csv_reader w" "remote w' = remote w"
    by simp_all
  with raw g rs show ?thesis by blast
qed

lemma process_metadata_fresh:
  assumes "\<not> path_exists w (output_csv self save_dir)"
    and "fst (process_metadata self save_dir w) = Inr df"
  shows "\<exists>wa. ensure_raw self save_dir w = (Inr (), wa)
           \<and> \<not> path_exists wa (output_csv self save_dir)
           \<and> fresh_filter self save_dir wa = (Inr df, snd (process_metadata self save_dir w))"
proof -
  obtain r wa where er: "ensure_raw self save_dir w = (r, wa)"
    by (cases "ensure_raw self save_dir w")
  have nc: "\<not> path_exists wa (output_csv self save_dir)"
    using ensure_raw_keeps_projection [OF er] assms(1) by simp
  from assms(2) er have r: "r = Inr ()"
    by (cases r) (simp_all add: process_metadata_def)
  from assms(2) er r nc have "fst (fresh_filter self save_dir wa) = Inr df"
    by (simp add: process_metadata_def)
  moreover from er r nc have "snd (process_metadata self save_dir w) = snd (fresh_filter self save_dir wa)"
    by (simp add: process_metadata_def)
  ultimately have "fresh_filter self save_dir wa = (Inr df, snd (process_metadata self save_dir w))"
    by (metis prod.collapse)
  with er r nc show ?thesis by blast
qed

text \<open>
  C1. On the fresh-filter path of \<open>process_metadata\<close> (no projection file for the query),
  every row of the returned frame satisfies every active filter: its state equals the query
  state when that is not "All"; its county field equals "state, county" when state and county
  are both not "All"; its building type equals the query building type when that is not
  "All". When all three fields are "All", the frame returned is the whole raw table on disk,
  with its index lifted into a column and no row removed.
\<close>

theorem fresh_rows_satisfy_filters:
  assumes "\<not> path_exists w (output_csv self save_dir)"
    and "fst (process_metadata self save_dir w) = Inr df"
  shows "(\<forall>row \<in> set (iterrows df).
            (state self \<noteq> ''All''
               \<longrightarrow> map_of row ''in.state'' = Some (StrCell (state self)))
          \<and> (state self \<noteq> ''All'' \<and> county_name self \<noteq> ''All''
               \<longrightarrow> map_of row ''in.county_name''
                     = Some (StrCell (state self @ '', '' @ county_name self)))
          \<and> (building_type self \<noteq> ''All''
               \<longrightarrow> map_of row ''in.comstock_building_type''
                     = Some (StrCell (building_type self))))
         \<and> (state self = ''All'' \<and> county_name self = ''All'' \<and> building_type self = ''All''
              \<longrightarrow> (\<exists>raw. fs (snd (process_metadata self save_dir w)) (raw_metadata save_dir)
                            = Some (File (ParquetData raw))
                          \<and> reset_index raw = Inr df
                          \<and> length (recs df) = length (recs raw)))"
proof -
  let ?w' = "snd (process_metadata self save_dir w)"
  from process_metadata_fresh [OF assms] obtain wa where
    ff: "fresh_filter self save_dir wa = (Inr df, ?w')" by blast
  from fresh_filter_result [OF ff] obtain raw g where
    raw: "fs wa (raw_metadata save_dir) = Some (File (ParquetData raw))"
    and g: "if build_filters self = [] then g = raw
            else apply_filters (build_filters self) raw = Inr g"
    and rs: "reset_index g = Inr df"
    and fs': "fs ?w' = (fs wa)(output_csv self save_dir
                          \<mapsto> File (CsvData (columns df)
                                          (map (\<lambda>r. map str_cell (snd r)) (recs df))))"
    by blast
  have raw': "fs ?w' (raw_metadata save_dir) = Some (File (ParquetData raw))"
    using raw fs' raw_metadata_neq_output_csv by simp
  have rows: "iterrows df = map (\<lambda>r. (lifted_name g, fst r) # zip (columns g) (snd r)) (recs g)"
    using reset_index_result(4) [OF rs] .
  have holds: "map_of row c = Some (StrCell v)"
    if "row \<in> set (iterrows df)" and "(c, v) \<in> set (build_filters self)"
      and "c \<noteq> ''index''" and "c \<noteq> ''level_0''" for row c v
  proof -
    from that(2) have ne: "build_filters self \<noteq> []" by auto
    with g have ap: "apply_filters (build_filters self) raw = Inr g" by simp
    from that(1) rows obtain r where r: "r \<in> set (recs g)"
      "row = (lifted_name g, fst r) # zip (columns g) (snd r)" by auto
    from apply_filters_sound(4) [OF ap r(1) that(2)]
    have "satisfies (stored_row raw r) (c, v)" .
    moreover have "stored_row raw r = stored_row g r"
      using apply_filters_sound(1,2) [OF ap] by (simp add: stored_row_def split: option.splits)
    ultimately have "satisfies (stored_row g r) (c, v)" by simp
    from lifted_row_lookup [OF this that(3,4)] r(2) show ?thesis by simp
  qed
  have a: "map_of row ''in.state'' = Some (StrCell (state self))"
    if "row \<in> set (iterrows df)" "state self \<noteq> ''All''" for row
    using that by (intro holds) (simp_all add: build_filters_def)
  have b: "map_of row ''in.county_name'' = Some (StrCell (state self @ '', '' @ county_name self))"
    if "row \<in> set (iterrows df)" "state self \<noteq> ''All''" "county_name self \<noteq> ''All''" for row
    using that by (intro holds) (simp_all add: build_filters_def)
  have c: "map_of row ''in.comstock_building_type'' = Some (StrCell (building_type self))"
    if "row \<in> set (iterrows df)" "building_type self \<noteq> ''All''" for row
    using that by (intro holds) (simp_all add: build_filters_def)
  have d: "\<exists>raw. fs ?w' (raw_metadata save_dir) = Some (File (ParquetData raw))
                 \<and> reset_index raw = Inr df \<and> length (recs df) = length (recs raw)"
    if "state self = ''All''" "county_name self = ''All''" "building_type self = ''All''"
  proof -
    from that have "build_filters self = []" by (simp add: build_filters_def)
    with g have "g = raw" by simp
    moreover have "length (recs df) = length (recs g)"
      using reset_index_result(3) [OF rs] by (simp add: range_index_def)
    ultimately show ?thesis using raw' rs by blast
  qed
  show ?thesis using a b c d by blast
qed

lemmas metadata_eval_defs =
  process_metadata_def ensure_raw_def fresh_filter_def build_filters_def filter_notices_def
  read_parquet_def apply_filters_def stored_columns_def stored_row_def satisfies_def
  reset_index_def lifted_name_def range_index_def to_csv_def read_csv_def write_file_def
  download_file_def raw_metadata_parts output_csv_def path_join_name path_exists_def parent_def
  emit_def new_processor_def Let_def

theorem fresh_rows_satisfy_filters_witness:
  "fst (process_metadata de_processor [''data''] metadata_world) = Inr de_small_offices
   \<and> iterrows de_small_offices
       = [[(''bldg_id'', IntCell 101), (''in.state'', StrCell ''DE''),
           (''in.county_name'', StrCell ''DE, Kent County''),
           (''in.comstock_building_type'', StrCell ''SmallOffice'')]]
   \<and> map_of (hd (iterrows de_small_offices)) ''in.state'' = Some (StrCell ''DE'')
   \<and> map_of (hd (iterrows de_small_offices)) ''in.comstock_building_type''
       = Some (StrCell ''SmallOffice'')
   \<and> fst (process_metadata all_processor [''data''] metadata_world) = Inr whole_table
   \<and> reset_index sample_metadata = Inr whole_table
   \<and> length (recs whole_table) = length (recs sample_metadata)"
proof -
  have nc: "\<not> path_exists metadata_world (output_csv de_processor [''data''])"
    "\<not> path_exists metadata_world (output_csv all_processor [''data''])"
    by (simp_all add: path_exists_def metadata_world_def output_csv_def path_join_name
        de_processor_def all_processor_def county_only_processor_def new_processor_def)
  have de_run: "fst (process_metadata de_processor [''data''] metadata_world) = Inr de_small_offices"
    by (simp add: metadata_eval_defs metadata_world_def refusing_world_def sample_metadata_def
        de_processor_def de_small_offices_def)
  have all_run: "fst (process_metadata all_processor [''data''] metadata_world) = Inr whole_table"
    by (simp add: metadata_eval_defs metadata_world_def refusing_world_def sample_metadata_def
        all_processor_def whole_table_def)
  have on_disk: "fs (snd (process_metadata all_processor [''data''] metadata_world))
                   (raw_metadata [''data'']) = Some (File (ParquetData sample_metadata))"
    by (simp add: metadata_eval_defs metadata_world_def refusing_world_def sample_metadata_def
        all_processor_def)
  have q: "state de_processor = ''DE''" "building_type de_processor = ''SmallOffice''"
    "state all_processor = ''All''" "county_name all_processor = ''All''"
    "building_type all_processor = ''All''"
    by (simp_all add: de_processor_def all_processor_def new_processor_def)
  have rows: "iterrows de_small_offices
       = [[(''bldg_id'', IntCell 101), (''in.state'', StrCell ''DE''),
           (''in.county_name'', StrCell ''DE, Kent County''),
           (''in.comstock_building_type'', StrCell ''SmallOffice'')]]"
    by (simp add: iterrows_def de_small_offices_def)
  then have mem: "hd (iterrows de_small_offices) \<in> set (iterrows de_small_offices)"
    by simp
  note t1 = fresh_rows_satisfy_filters [OF nc(1) de_run, THEN conjunct1, rule_format, OF mem]
  note t2 = fresh_rows_satisfy_filters [OF nc(2) all_run, THEN conjunct2, rule_format]
  have a: "map_of (hd (iterrows de_small_offices)) ''in.state'' = Some (StrCell ''DE'')"
    "map_of (hd (iterrows de_small_offices)) ''in.comstock_building_type''
       = Some (StrCell ''SmallOffice'')"
    using t1 q(1,2) by simp_all
  from t2 q(3-5) on_disk
  have b: "reset_index sample_metadata = Inr whole_table
           \<and> length (recs whole_table) = length (recs sample_metadata)"
    by auto
  from de_run rows a all_run b show ?thesis by blast
qed

subsection \<open>The download step and the projection cache\<close>

lemma read_parquet_fs:
  "fs w' = fs w \<Longrightarrow> read_parquet p flt w' = read_parquet p flt w"
  by (simp add: read_parquet_def)





lemma download_file_reader:
  assumes "download_file u p w = (r, w')"
  shows "csv_reader w' = csv_reader w"
  using assms write_file_fields(4) [of p _ "w\<lparr>requests := requests w @ [u]\<rparr>" r w']
  by (auto simp: download_file_def Let_def split: http.splits if_splits)

lemma ensure_raw_present:
  assumes "path_exists w (raw_metadata save_dir)"
  shows "ensure_raw self save_dir w
           = (Inr (), emit ''Metadata parquet already exists. Skipping download.'' w)"
  using assms by (simp add: ensure_raw_def)

lemma ensure_raw_effect:
  assumes "ensure_raw self save_dir w = (r, wa)"
  shows "remote wa = remote w" and "path_exists w q \<Longrightarrow> path_exists wa q"
    and "csv_reader wa = csv_reader w"
proof -
  let ?u = "metadata_url self @ ''/baseline.parquet''"
  let ?w0 = "emit (''Downloading metadata file: '' @ ?u) w"
  show "remote wa = remote w"
  proof (cases "path_exists w (raw_metadata save_dir)")
    case True
    with assms show ?thesis by (auto simp: ensure_raw_def)
  next
    case False
    with assms have "download_file ?u (raw_metadata save_dir) ?w0 = (r, wa)"
      by (simp add: ensure_raw_def Let_def)
    from download_file_effect(1) [OF this] show ?thesis by simp
  qed
  show "csv_reader wa = csv_reader w"
  proof (cases "path_exists w (raw_metadata save_dir)")
    case True
    with assms show ?thesis by (auto simp: ensure_raw_def)
  next
    case False
    with assms have "download_file ?u (raw_metadata save_dir) ?w0 = (r, wa)"
      by (simp add: ensure_raw_def Let_def)
    from download_file_reader [OF this] show ?thesis by simp
  qed
  show "path_exists w q \<Longrightarrow> path_exists wa q"
  proof (cases "path_exists w (raw_metadata save_dir)")
    case True
    assume "path_exists w q"
    with True assms show ?thesis by (auto simp: ensure_raw_def)
  next
    case False
    assume q: "path_exists w q"
    from False assms have "download_file ?u (raw_metadata save_dir) ?w0 = (r, wa)"
      by (simp add: ensure_raw_def Let_def)
    from download_file_effect(2) [OF this, of q] q show ?thesis by simp
  qed
qed

lemma ensure_raw_again:
  assumes "ensure_raw self save_dir w = (Inr (), wa)"
    and "fs v = fs wa" and "remote v = remote w"
  shows "\<exists>vb. ensure_raw self save_dir v = (Inr (), vb) \<and> fs vb = fs v \<and> remote vb = remote v
           \<and> (path_exists v (raw_metadata save_dir) \<longrightarrow> requests vb = requests v)"
proof (cases "path_exists v (raw_metadata save_dir)")
  case True
  from ensure_raw_present [OF True] show ?thesis by simp
next
  case False
  let ?u = "metadata_url self @ ''/baseline.parquet''"
  let ?w0 = "emit (''Downloading metadata file: '' @ ?u) w"
  from False assms(2) have na: "\<not> path_exists wa (raw_metadata save_dir)"
    by (simp add: path_exists_def)
  with ensure_raw_effect(2) [OF assms(1)] have nw: "\<not> path_exists w (raw_metadata save_dir)"
    by blast
  with assms(1) have dl: "download_file ?u (raw_metadata save_dir) ?w0 = (Inr (), wa)"
    by (simp add: ensure_raw_def Let_def)
  then obtain sc body where resp: "remote w ?u = Response sc body"
    by (auto simp: download_file_def Let_def split: http.splits)
  have "sc \<noteq> 200"
  proof
    assume "sc = 200"
    with resp have "remote ?w0 ?u = Response 200 body" by simp
    from download_file_ok_status [OF dl this] na show False by simp
  qed
  with resp assms(3) have "remote v ?u = Response sc body" "sc \<noteq> 200" by simp_all
  from ensure_raw_failed(1,2,3) [OF False this] False show ?thesis
    by (metis prod.collapse)
qed

text \<open>The lines the download step prints are its own notices, never the county warning.\<close>

lemma ensure_raw_out:
  "\<exists>ls. out (snd (ensure_raw self save_dir w)) = out w @ ls \<and> county_warning \<notin> set ls"
proof (cases "path_exists w (raw_metadata save_dir)")
  case True
  then have "out (snd (ensure_raw self save_dir w))
               = out w @ [''Metadata parquet already exists. Skipping download.'']"
    by (simp add: ensure_raw_def)
  moreover have "county_warning \<notin> set [''Metadata parquet already exists. Skipping download.'']"
    by (simp add: county_warning_def)
  ultimately show ?thesis by blast
next
  case False
  let ?u = "metadata_url self @ ''/baseline.parquet''"
  let ?w0 = "emit (''Downloading metadata file: '' @ ?u) w"
  obtain r wa where dl: "download_file ?u (raw_metadata save_dir) ?w0 = (r, wa)"
    by (cases "download_file ?u (raw_metadata save_dir) ?w0")
  with False have wa: "snd (ensure_raw self save_dir w) = wa"
    by (simp add: ensure_raw_def Let_def)
  from download_file_out [OF dl]
  have "out wa = out w @ [''Downloading metadata file: '' @ ?u]
        \<or> out wa = out w @ [''Downloading metadata file: '' @ ?u,
                            ''Failed to download file: '' @ ?u]"
    by simp
  moreover have "county_warning \<notin> set [''Downloading metadata file: '' @ ?u]"
    "county_warning \<notin> set [''Downloading metadata file: '' @ ?u,
                             ''Failed to download file: '' @ ?u]"
    by (simp_all add: county_warning_def)
  ultimately show ?thesis unfolding wa by blast
qed

lemma read_csv_cong:
  "fs w' p = fs w p \<Longrightarrow> csv_reader w' = csv_reader w \<Longrightarrow> read_csv p w' = read_csv p w"
  by (simp add: read_csv_def split: option.splits node.splits)

lemma read_csv_emit [simp]: "read_csv p (emit s w) = read_csv p w"
  by (simp add: read_csv_def split: option.splits node.splits)

lemma process_metadata_cached:
  assumes "ensure_raw self save_dir w = (Inr (), wa)"
    and "path_exists wa (output_csv self save_dir)"
  shows "fst (process_metadata self save_dir w) = read_csv (output_csv self save_dir) wa"
    and "fs (snd (process_metadata self save_dir w)) = fs wa"
    and "remote (snd (process_metadata self save_dir w)) = remote wa"
    and "requests (snd (process_metadata self save_dir w)) = requests wa"
    and "csv_reader (snd (process_metadata self save_dir w)) = csv_reader wa"
    and "out (snd (process_metadata self save_dir w))
           = out wa @ [''Metadata csv already exists. Skipping creation. Delete ''
                        @ join_path (output_csv self save_dir)
                        @ '' if you want to save again.'']"
  using assms by (simp_all add: process_metadata_def Let_def split: sum.splits)

text \<open>
  On a projection-cache hit the call returns what reading the projection file gives, whatever
  the download step did to the raw metadata file.
\<close>

lemma process_metadata_hit:
  assumes "path_exists w (output_csv self save_dir)"
    and "fst (ensure_raw self save_dir w) = Inr ()"
  shows "fst (process_metadata self save_dir w) = read_csv (output_csv self save_dir) w"
    and "\<exists>ls. out (snd (process_metadata self save_dir w)) = out w @ ls
              \<and> county_warning \<notin> set ls"
proof -
  let ?csv = "output_csv self save_dir"
  from assms(2) obtain wa where er: "ensure_raw self save_dir w = (Inr (), wa)"
    by (metis prod.collapse)
  have ca: "path_exists wa ?csv"
    using ensure_raw_keeps_projection [OF er] assms(1) by simp
  have same: "fs wa ?csv = fs w ?csv"
    using ensure_raw_other [OF er, of ?csv] raw_metadata_neq_output_csv [of save_dir self]
    by (metis)
  have "read_csv ?csv wa = read_csv ?csv w"
    using same ensure_raw_effect(3) [OF er] by (rule read_csv_cong)
  with process_metadata_cached(1) [OF er ca]
  show "fst (process_metadata self save_dir w) = read_csv ?csv w" by simp
  from ensure_raw_out [of self save_dir w] er obtain ls where
    ls: "out wa = out w @ ls" "county_warning \<notin> set ls" by auto
  let ?n = "''Metadata csv already exists. Skipping creation. Delete ''
            @ join_path ?csv @ '' if you want to save again.''"
  have "out (snd (process_metadata self save_dir w)) = out w @ (ls @ [?n])"
    using process_metadata_cached(6) [OF er ca] ls(1) by simp
  moreover have "county_warning \<notin> set (ls @ [?n])"
    using ls(2) by (simp add: county_warning_def)
  ultimately show "\<exists>ls. out (snd (process_metadata self save_dir w)) = out w @ ls
              \<and> county_warning \<notin> set ls"
    by blast
qed

subsection \<open>County without state\<close>




subsection \<open>Calling \<open>process_metadata\<close> again\<close>

text \<open>
  A second call, started where a returning call ended, finds the projection file: it is a
  cache load. What it returns is the first frame again when the first call was a cache load
  too, and otherwise what the reader makes of the text written from the first frame.
\<close>

lemma process_metadata_again:
  assumes "fst (process_metadata self save_dir w) = Inr df"
    and "w1 = snd (process_metadata self save_dir w)"
  shows "fst (process_metadata self save_dir w1) = read_csv (output_csv self save_dir) w1
         \<and> fs (snd (process_metadata self save_dir w1)) = fs w1
         \<and> (path_exists w (output_csv self save_dir)
              \<longrightarrow> fst (process_metadata self save_dir w1) = Inr df)
         \<and> (\<not> path_exists w (output_csv self save_dir)
              \<longrightarrow> path_exists w1 (raw_metadata save_dir)
                  \<and> fst (process_metadata self save_dir w1)
                      = csv_reader w1 (CsvData (columns df)
                                       (map (\<lambda>r. map str_cell (snd r)) (recs df))))
         \<and> (path_exists w1 (raw_metadata save_dir)
              \<longrightarrow> requests (snd (process_metadata self save_dir w1)) = requests w1)"
proof -
  let ?csv = "output_csv self save_dir"
  let ?raw = "raw_metadata save_dir"
  let ?second = "process_metadata self save_dir w1"
  have neq: "?raw \<noteq> ?csv" by (rule raw_metadata_neq_output_csv)
  obtain r wa where er: "ensure_raw self save_dir w = (r, wa)"
    by (cases "ensure_raw self save_dir w")
  from assms(1) er have r: "r = Inr ()"
    by (cases r) (simp_all add: process_metadata_def)
  note er = er [unfolded r]
  have rem: "remote wa = remote w" using ensure_raw_effect(1) [OF er] .
  show ?thesis
  proof (cases "path_exists wa ?csv")
    case True
    note c1 = process_metadata_cached [OF er True]
    have rd: "read_csv ?csv wa = Inr df" using c1(1) assms(1) by simp
    have fs1: "fs w1 = fs wa" and rem1: "remote w1 = remote w"
      and rdr1: "csv_reader w1 = csv_reader wa"
      using c1(2,3,5) assms(2) rem by simp_all
    from ensure_raw_again [OF er fs1 rem1] obtain vb where
      again: "ensure_raw self save_dir w1 = (Inr (), vb)" and fsb: "fs vb = fs w1"
      and quiet: "path_exists w1 ?raw \<longrightarrow> requests vb = requests w1"
      by blast
    have cb: "path_exists vb ?csv" using True fsb fs1 by (simp add: path_exists_def)
    note c2 = process_metadata_cached [OF again cb]
    have e1: "read_csv ?csv w1 = read_csv ?csv wa"
      using fs1 rdr1 by (intro read_csv_cong) simp_all
    have e2: "read_csv ?csv vb = read_csv ?csv w1"
      using fsb ensure_raw_effect(3) [OF again] by (intro read_csv_cong) simp_all
    have "fst ?second = read_csv ?csv w1" using c2(1) e2 by simp
    moreover have "fs (snd ?second) = fs w1" using c2(2) fsb by simp
    moreover have "fst ?second = Inr df" using c2(1) e2 e1 rd by simp
    moreover have "path_exists w1 ?raw \<longrightarrow> requests (snd ?second) = requests w1"
      using c2(4) quiet by simp
    moreover have "path_exists w ?csv"
      using ensure_raw_keeps_projection [OF er] True by simp
    ultimately show ?thesis by blast
  next
    case False
    with er have pm: "process_metadata self save_dir w = fresh_filter self save_dir wa"
      by (simp add: process_metadata_def)
    have ff: "fresh_filter self save_dir wa = (Inr df, w1)"
      using assms pm by (simp add: prod_eq_iff)
    from fresh_filter_result [OF ff] obtain raw g where
      raw: "fs wa ?raw = Some (File (ParquetData raw))"
      and fs1: "fs w1 = (fs wa)(?csv \<mapsto> File (CsvData (columns df)
                                         (map (\<lambda>r. map str_cell (snd r)) (recs df))))"
      by blast
    have raw1: "path_exists w1 ?raw"
      using raw fs1 neq by (simp add: path_exists_def)
    have on_disk: "fs w1 ?csv = Some (File (CsvData (columns df)
                                         (map (\<lambda>r. map str_cell (snd r)) (recs df))))"
      by (simp add: fs1)
    have rd: "read_csv ?csv w1
                = csv_reader w1 (CsvData (columns df)
                                       (map (\<lambda>r. map str_cell (snd r)) (recs df)))"
      using on_disk by (simp add: read_csv_def)
    let ?vb = "emit ''Metadata parquet already exists. Skipping download.'' w1"
    have again: "ensure_raw self save_dir w1 = (Inr (), ?vb)"
      using raw1 by (rule ensure_raw_present)
    have cb: "path_exists ?vb ?csv" using on_disk by (simp add: path_exists_def)
    note c2 = process_metadata_cached [OF again cb]
    have "fst ?second = read_csv ?csv w1" using c2(1) by simp
    moreover have "fs (snd ?second) = fs w1" using c2(2) by simp
    moreover have "requests (snd ?second) = requests w1" using c2(4) by simp
    moreover have "\<not> path_exists w ?csv"
      using ensure_raw_keeps_projection [OF er] False by simp
    ultimately show ?thesis using rd raw1 by simp
  qed
qed

text \<open>
  C2, as stated, fails in two ways. When the projection file exists and the raw metadata file
  does not (and the server refuses the download), both calls return the cached frame, and the
  second call issues a request exactly as the first did: the download is attempted before the
  projection file is looked at. And the two return paths are not equivalent: the first call
  returns the frame as filtered, the second what the CSV reader makes of its text, so a
  string column of digits comes back as integers.
\<close>

theorem second_call_counterexample:
  "fst (process_metadata de_processor [''data''] projection_only_world) = Inr de_small_offices
   \<and> fst (process_metadata de_processor [''data'']
            (snd (process_metadata de_processor [''data''] projection_only_world)))
       = Inr de_small_offices
   \<and> requests (snd (process_metadata de_processor [''data''] projection_only_world))
       = [metadata_url de_processor @ ''/baseline.parquet'']
   \<and> requests (snd (process_metadata de_processor [''data'']
            (snd (process_metadata de_processor [''data''] projection_only_world))))
       = [metadata_url de_processor @ ''/baseline.parquet'',
          metadata_url de_processor @ ''/baseline.parquet'']
   \<and> fst (process_metadata all_processor [''data''] coded_world) = Inr coded_fresh
   \<and> fst (process_metadata all_processor [''data'']
            (snd (process_metadata all_processor [''data''] coded_world)))
       = Inr coded_reloaded
   \<and> coded_fresh \<noteq> coded_reloaded"
proof -
  let ?w1 = "snd (process_metadata all_processor [''data''] coded_world)"
  have cached: "fst (process_metadata de_processor [''data''] projection_only_world)
       = Inr de_small_offices
   \<and> fst (process_metadata de_processor [''data'']
            (snd (process_metadata de_processor [''data''] projection_only_world)))
       = Inr de_small_offices
   \<and> requests (snd (process_metadata de_processor [''data''] projection_only_world))
       = [metadata_url de_processor @ ''/baseline.parquet'']
   \<and> requests (snd (process_metadata de_processor [''data'']
            (snd (process_metadata de_processor [''data''] projection_only_world))))
       = [metadata_url de_processor @ ''/baseline.parquet'',
          metadata_url de_processor @ ''/baseline.parquet'']"
    by (simp add: metadata_eval_defs projection_only_world_def refusing_world_def
        de_processor_def de_small_offices_def inferring_reader_def typed_cells_def
        is_int_text_def is_digits_def int_of_text_def nat_of_digits_def digit_value_def)
  have first: "fst (process_metadata all_processor [''data''] coded_world) = Inr coded_fresh"
    by (simp add: metadata_eval_defs coded_world_def refusing_world_def
        all_processor_def coded_metadata_def coded_fresh_def)
  have nc: "\<not> path_exists coded_world (output_csv all_processor [''data''])"
    by (simp add: path_exists_def coded_world_def output_csv_def path_join_name
        all_processor_def new_processor_def)
  have rdr: "csv_reader ?w1 = inferring_reader"
    by (simp add: metadata_eval_defs coded_world_def refusing_world_def
        all_processor_def coded_metadata_def)
  have parsed: "inferring_reader (CsvData (columns coded_fresh)
                  (map (\<lambda>r. map str_cell (snd r)) (recs coded_fresh))) = Inr coded_reloaded"
    by (simp add: coded_fresh_def coded_reloaded_def inferring_reader_def typed_cells_def
        range_index_def is_int_text_def is_digits_def int_of_text_def nat_of_digits_def
        digit_value_def)
  from process_metadata_again [OF first refl] nc
  have "fst (process_metadata all_processor [''data''] ?w1)
          = csv_reader ?w1 (CsvData (columns coded_fresh)
              (map (\<lambda>r. map str_cell (snd r)) (recs coded_fresh)))"
    by blast
  then have second: "fst (process_metadata all_processor [''data''] ?w1) = Inr coded_reloaded"
    by (simp only: rdr parsed)
  have differ: "coded_fresh \<noteq> coded_reloaded"
    by (simp add: coded_fresh_def coded_reloaded_def)
  from cached first second differ show ?thesis by blast
qed

text \<open>
  C2, amended. If a call of \<open>process_metadata\<close> returns a frame, a second call with the same
  parameters and directory, started in the world the first one left, is a projection-cache
  load: it returns what reading the projection file gives and leaves the file system as it
  found it. When the first call was itself a cache load, the two frames are equal. When the
  first call filtered afresh, the raw file exists afterwards and the second call returns what
  the CSV reader makes of the text of the first frame (equal to it or not, as the reader has
  it). The second call issues no request provided the raw metadata file exists when it starts.
  In any world, a call that finds the projection file returns what reading it gives, whatever
  the raw metadata file holds: the raw file is neither read nor filtered.
\<close>

theorem second_metadata_call_equal:
  assumes "fst (process_metadata self save_dir w) = Inr df"
    and "w1 = snd (process_metadata self save_dir w)"
  shows "fst (process_metadata self save_dir w1) = read_csv (output_csv self save_dir) w1
         \<and> fs (snd (process_metadata self save_dir w1)) = fs w1
         \<and> (path_exists w (output_csv self save_dir)
              \<longrightarrow> fst (process_metadata self save_dir w1) = Inr df)
         \<and> (\<not> path_exists w (output_csv self save_dir)
              \<longrightarrow> path_exists w1 (raw_metadata save_dir)
                  \<and> fst (process_metadata self save_dir w1)
                      = csv_reader w1 (CsvData (columns df)
                                       (map (\<lambda>r. map str_cell (snd r)) (recs df))))
         \<and> (path_exists w1 (raw_metadata save_dir)
              \<longrightarrow> requests (snd (process_metadata self save_dir w1)) = requests w1)
         \<and> (path_exists v (output_csv self save_dir) \<and> fst (ensure_raw self save_dir v) = Inr ()
              \<longrightarrow> fst (process_metadata self save_dir v) = read_csv (output_csv self save_dir) v)
         \<and> (path_exists v (output_csv self save_dir)
              \<longrightarrow> fst (process_metadata self save_dir
                         (v\<lparr>fs := (fs v)(raw_metadata save_dir \<mapsto> x)\<rparr>))
                    = read_csv (output_csv self save_dir) v)"
proof -
  let ?csv = "output_csv self save_dir"
  let ?raw = "raw_metadata save_dir"
  let ?second = "process_metadata self save_dir w1"
  have neq: "?raw \<noteq> ?csv" by (rule raw_metadata_neq_output_csv)
  have hit: "fst (process_metadata self save_dir v) = read_csv ?csv v"
    if "path_exists v ?csv \<and> fst (ensure_raw self save_dir v) = Inr ()"
    using that process_metadata_hit(1) [of v self save_dir] by blast
  have any_raw: "fst (process_metadata self save_dir (v\<lparr>fs := (fs v)(?raw \<mapsto> x)\<rparr>))
                   = read_csv ?csv v"
    if c: "path_exists v ?csv"
  proof -
    let ?v' = "v\<lparr>fs := (fs v)(?raw \<mapsto> x)\<rparr>"
    have "path_exists ?v' ?raw" by (simp add: path_exists_def)
    from ensure_raw_present [OF this] have ok: "fst (ensure_raw self save_dir ?v') = Inr ()"
      by simp
    have c': "path_exists ?v' ?csv"
      using c neq by (simp add: path_exists_def)
    have "read_csv ?csv ?v' = read_csv ?csv v"
      using neq by (intro read_csv_cong) simp_all
    with process_metadata_hit(1) [OF c' ok] show ?thesis by simp
  qed
  note main = process_metadata_again [OF assms]
  show ?thesis
    apply (intro conjI)
    subgoal using main by blast
    subgoal using main by blast
    subgoal using main by blast
    subgoal using main by blast
    subgoal using main by blast
    subgoal using hit by blast
    subgoal using any_raw by blast
    done
qed

theorem second_metadata_call_equal_witness:
  "fst (process_metadata de_processor [''data''] metadata_world) = Inr de_small_offices
   \<and> fst (process_metadata de_processor [''data'']
            (snd (process_metadata de_processor [''data''] metadata_world)))
       = Inr de_small_offices
   \<and> requests (snd (process_metadata de_processor [''data'']
            (snd (process_metadata de_processor [''data''] metadata_world))))
       = requests (snd (process_metadata de_processor [''data''] metadata_world))
   \<and> path_exists (snd (process_metadata de_processor [''data''] metadata_world))
        (raw_metadata [''data''])
   \<and> fst (process_metadata de_processor [''data'']
            (snd (process_metadata de_processor [''data''] projection_only_world)))
       = Inr de_small_offices
   \<and> fst (process_metadata de_processor [''data'']
            (projection_only_world\<lparr>fs := (fs projection_only_world)
               (raw_metadata [''data''] \<mapsto> File (OtherData ''junk''))\<rparr>))
       = Inr de_small_offices"
proof -
  let ?w1 = "snd (process_metadata de_processor [''data''] metadata_world)"
  have nc: "\<not> path_exists metadata_world (output_csv de_processor [''data''])"
    by (simp add: path_exists_def metadata_world_def output_csv_def path_join_name
        de_processor_def new_processor_def)
  have c: "path_exists projection_only_world (output_csv de_processor [''data''])"
    by (simp add: path_exists_def projection_only_world_def output_csv_def path_join_name
        de_processor_def new_processor_def)
  have run: "fst (process_metadata de_processor [''data''] metadata_world) = Inr de_small_offices"
    by (simp add: metadata_eval_defs metadata_world_def refusing_world_def sample_metadata_def
        de_processor_def de_small_offices_def)
  have run': "fst (process_metadata de_processor [''data''] projection_only_world)
                = Inr de_small_offices"
    by (simp add: metadata_eval_defs projection_only_world_def refusing_world_def
        de_processor_def de_small_offices_def inferring_reader_def typed_cells_def
        is_int_text_def is_digits_def int_of_text_def nat_of_digits_def digit_value_def)
  have rdr: "csv_reader ?w1 = inferring_reader"
    by (simp add: metadata_eval_defs metadata_world_def refusing_world_def sample_metadata_def
        de_processor_def)
  have parsed: "inferring_reader (CsvData (columns de_small_offices)
                (map (\<lambda>r. map str_cell (snd r)) (recs de_small_offices))) = Inr de_small_offices"
    by (simp add: de_small_offices_def inferring_reader_def typed_cells_def range_index_def
        is_int_text_def is_digits_def int_of_text_def nat_of_digits_def digit_value_def)
  have rd: "read_csv (output_csv de_processor [''data'']) projection_only_world
              = Inr de_small_offices"
    by (simp add: metadata_eval_defs projection_only_world_def refusing_world_def
        de_processor_def de_small_offices_def inferring_reader_def typed_cells_def
        is_int_text_def is_digits_def int_of_text_def nat_of_digits_def digit_value_def)
  note t = second_metadata_call_equal
             [OF run refl, of projection_only_world "File (OtherData ''junk'')"]
  note t' = second_metadata_call_equal
              [OF run' refl, of projection_only_world "File (OtherData ''junk'')"]
  from t nc have "fst (process_metadata de_processor [''data''] ?w1)
                    = csv_reader ?w1 (CsvData (columns de_small_offices)
                        (map (\<lambda>r. map str_cell (snd r)) (recs de_small_offices)))"
    by blast
  then have a: "fst (process_metadata de_processor [''data''] ?w1) = Inr de_small_offices"
    by (simp only: rdr parsed)
  have b: "requests (snd (process_metadata de_processor [''data''] ?w1)) = requests ?w1"
    "path_exists ?w1 (raw_metadata [''data''])"
    using t nc by blast+
  have d: "fst (process_metadata de_processor [''data'']
            (snd (process_metadata de_processor [''data''] projection_only_world)))
       = Inr de_small_offices"
    using t' c by blast
  from t c have "fst (process_metadata de_processor [''data'']
            (projection_only_world\<lparr>fs := (fs projection_only_world)
               (raw_metadata [''data''] \<mapsto> File (OtherData ''junk''))\<rparr>))
       = read_csv (output_csv de_processor [''data'']) projection_only_world"
    by blast
  then have e: "fst (process_metadata de_processor [''data'']
            (projection_only_world\<lparr>fs := (fs projection_only_world)
               (raw_metadata [''data''] \<mapsto> File (OtherData ''junk''))\<rparr>))
       = Inr de_small_offices"
    by (simp only: rd)
  from run a b d e show ?thesis by blast
qed

end
